theory Spec2Isabelle
  imports Complex_Main
begin

section \<open>Wither door ESP: data model\<close>

text \<open>
  The embedding follows \<^verbatim>\<open>IllegalMap/extra/WitherDoorEsp.js\<close>. JavaScript numbers are
  modelled as mathematical reals (finite and exact: no NaN, no Infinity, no rounding);
  the results of \<^verbatim>\<open>Math.floor\<close> and block coordinates are integers.
\<close>

definition AirBlockID :: int where
  "AirBlockID = 0"

definition FLOOR_Y :: int where
  "FLOOR_Y = 69"

text \<open>
  Modelled from the spec: the enumeration \<^verbatim>\<open>DoorTypes\<close> of \<^verbatim>\<open>utils/utils\<close> is imported
  by the module but its declaration is not part of the sources at hand. The spec describes
  the type tag as drawn from a small fixed enumeration that includes at least WITHER and
  BLOOD plus other types that the feature does not use.
\<close>

datatype door_type = NORMAL | WITHER | BLOOD | ENTRANCE

definition TypesToESP :: "door_type list" where
  "TypesToESP = [WITHER, BLOOD]"

text \<open>
  A door object as handed out by the room graph accessor. The three foot fields are the
  properties the traversal attaches; \<open>None\<close> is JavaScript's \<^verbatim>\<open>undefined\<close>.
\<close>

record door =
  door_x :: real
  door_z :: real
  door_type :: door_type
  door_opened :: bool
  door_footX :: "real option"
  door_footY :: "real option"
  door_footZ :: "real option"

text \<open>
  Room objects live in a store indexed by references, so that the children arrays may
  share rooms or form cycles. A missing \<^verbatim>\<open>name\<close> or \<^verbatim>\<open>children\<close> property is \<open>None\<close>,
  and so is a \<^verbatim>\<open>null\<close> entry of a children array.
\<close>

type_synonym room_ref = nat

record room =
  room_name :: "string option"
  room_children :: "room_ref option list option"

text \<open>What the module writes to the chat and to the console, in order.\<close>

datatype log_entry =
    ConsoleError_invalidDoorCoords
  | Chat_blockCheckError int int int string
  | ConsoleWarn_fallback "string option" "string option" real real

text \<open>
  The host objects the module reads: configuration, dungeon state, the room graph
  accessor, the world and the player. \<open>World_getBlockAt h bx by bz\<close> stands for the whole
  expression \<^verbatim>\<open>World.getBlockAt(x, y, z).type.getID()\<close>: \<open>Inr i\<close> when it evaluates to
  the block id \<open>i\<close>, \<open>Inl e\<close> when any part of it throws \<open>e\<close>. \<open>DoorTypes_label\<close> stands for
  \<^verbatim>\<open>DoorTypes[door.type] || door.type\<close>, whose table is not part of the sources at hand.
\<close>

record host =
  Config_witherDoorEsp :: bool
  Dungeon_inDungeon :: bool
  Dungeon_bossEntry :: bool
  getCurrentRoom :: "room_ref option"
  rooms :: "room_ref \<Rightarrow> room"
  getDoorBetweenRooms :: "room_ref \<Rightarrow> room_ref \<Rightarrow> door option"
  World_getBlockAt :: "int \<Rightarrow> int \<Rightarrow> int \<Rightarrow> string + int"
  Player_getX :: real
  Player_getY :: real
  Player_getZ :: real
  DoorTypes_label :: "door_type \<Rightarrow> string"

section \<open>Block-clearance prober\<close>

record doorCoords =
  dc_x :: "real option"
  dc_z :: "real option"

record position =
  pos_x :: real
  pos_y :: real
  pos_z :: real

record blockPos =
  bp_x :: int
  bp_y :: int
  bp_z :: int

record checks =
  north :: bool
  south :: bool
  east :: bool
  west :: bool

datatype side = North | South | East | West

record candidate =
  footX :: int
  footY :: int
  footZ :: int
  side :: side

definition Math_floor :: "real \<Rightarrow> int" where
  "Math_floor v = \<lfloor>v\<rfloor>"

text \<open>
  \<^verbatim>\<open>isBlockAir\<close>: the lookup runs inside \<^verbatim>\<open>try\<close>; the \<^verbatim>\<open>catch\<close> branch writes the error to
  the chat and answers \<^verbatim>\<open>false\<close>.
\<close>

definition isBlockAir :: "host \<Rightarrow> int \<Rightarrow> int \<Rightarrow> int \<Rightarrow> bool \<times> log_entry list" where
  "isBlockAir h bx bh bz =
     (case World_getBlockAt h bx bh bz of
        Inr i \<Rightarrow> (i = AirBlockID, [])
      | Inl e \<Rightarrow> (False, [Chat_blockCheckError bx bh bz e]))"

text \<open>
  JavaScript's \<^verbatim>\<open>a && b\<close> on two logging computations: \<open>b\<close> runs, and logs, only when \<open>a\<close>
  is true.
\<close>

definition andAlso :: "bool \<times> log_entry list \<Rightarrow> bool \<times> log_entry list \<Rightarrow> bool \<times> log_entry list" where
  "andAlso a b = (if fst a then (fst b, snd a @ snd b) else (False, snd a))"

text \<open>Step 2 of the prober: the object \<^verbatim>\<open>checks\<close>, with the chat lines its lookups wrote.\<close>

definition blockChecks :: "host \<Rightarrow> int \<Rightarrow> int \<Rightarrow> int \<Rightarrow> checks \<times> log_entry list" where
  "blockChecks h doorBlockX floorY doorBlockZ =
     (let n = andAlso (isBlockAir h doorBlockX floorY (doorBlockZ - 2))
                      (isBlockAir h doorBlockX (floorY + 1) (doorBlockZ - 2));
          s = andAlso (isBlockAir h doorBlockX floorY (doorBlockZ + 2))
                      (isBlockAir h doorBlockX (floorY + 1) (doorBlockZ + 2));
          e = andAlso (isBlockAir h (doorBlockX + 2) floorY doorBlockZ)
                      (isBlockAir h (doorBlockX + 2) (floorY + 1) doorBlockZ);
          w = andAlso (isBlockAir h (doorBlockX - 2) floorY doorBlockZ)
                      (isBlockAir h (doorBlockX - 2) (floorY + 1) doorBlockZ)
      in (\<lparr>north = fst n, south = fst s, east = fst e, west = fst w\<rparr>,
          snd n @ snd s @ snd e @ snd w))"

text \<open>Step 3 of the prober: the array \<^verbatim>\<open>candidates\<close> after the four conditional pushes.\<close>

definition candidates :: "checks \<Rightarrow> int \<Rightarrow> int \<Rightarrow> int \<Rightarrow> candidate list" where
  "candidates ck doorBlockX floorY doorBlockZ =
     (if north ck then [\<lparr>footX = doorBlockX + 2, footY = floorY, footZ = doorBlockZ - 3, side = North\<rparr>] else []) @
     (if south ck then [\<lparr>footX = doorBlockX - 2, footY = floorY, footZ = doorBlockZ + 3, side = South\<rparr>] else []) @
     (if east ck then [\<lparr>footX = doorBlockX + 3, footY = floorY, footZ = doorBlockZ - 2, side = East\<rparr>] else []) @
     (if west ck then [\<lparr>footX = doorBlockX - 3, footY = floorY, footZ = doorBlockZ - 2, side = West\<rparr>] else [])"

definition distanceSq :: "blockPos \<Rightarrow> candidate \<Rightarrow> int" where
  "distanceSq playerPos pos =
     (let dx = bp_x playerPos - footX pos; dz = bp_z playerPos - footZ pos
      in dx * dx + dz * dz)"

text \<open>
  One round of the \<^verbatim>\<open>forEach\<close> of step 4. The accumulator is the pair
  (\<^verbatim>\<open>bestPosition\<close>, \<^verbatim>\<open>closestDistanceSq\<close>); the distance \<open>None\<close> is \<^verbatim>\<open>Infinity\<close>, which
  every computed distance is below.
\<close>

definition selectStep :: "blockPos \<Rightarrow> candidate option \<times> int option \<Rightarrow> candidate \<Rightarrow> candidate option \<times> int option" where
  "selectStep playerPos acc pos =
     (if (case snd acc of None \<Rightarrow> True | Some closest \<Rightarrow> distanceSq playerPos pos < closest)
      then (Some pos, Some (distanceSq playerPos pos))
      else acc)"

text \<open>The observer position of step 1: the argument when given, else the player; floored.\<close>

definition observer :: "host \<Rightarrow> position option \<Rightarrow> blockPos" where
  "observer h playerPos =
     (case playerPos of
        None \<Rightarrow> \<lparr>bp_x = Math_floor (Player_getX h), bp_y = Math_floor (Player_getY h),
                 bp_z = Math_floor (Player_getZ h)\<rparr>
      | Some p \<Rightarrow> \<lparr>bp_x = Math_floor (pos_x p), bp_y = Math_floor (pos_y p),
                   bp_z = Math_floor (pos_z p)\<rparr>)"

definition calculateFootCoordsWithBlockCheck ::
  "host \<Rightarrow> doorCoords option \<Rightarrow> int \<Rightarrow> position option \<Rightarrow> candidate option \<times> log_entry list" where
  "calculateFootCoordsWithBlockCheck h doorCoords floorY playerPos =
     (case doorCoords of
        None \<Rightarrow> (None, [ConsoleError_invalidDoorCoords])
      | Some dc \<Rightarrow>
          (case dc_x dc of
             None \<Rightarrow> (None, [ConsoleError_invalidDoorCoords])
           | Some x \<Rightarrow>
               (case dc_z dc of
                  None \<Rightarrow> (None, [ConsoleError_invalidDoorCoords])
                | Some z \<Rightarrow>
                    (let doorBlockX = Math_floor x;
                         doorBlockZ = Math_floor z;
                         pp = observer h playerPos;
                         ck = blockChecks h doorBlockX floorY doorBlockZ;
                         cs = candidates (fst ck) doorBlockX floorY doorBlockZ
                     in if length cs = 0 then (None, snd ck)
                        else if length cs = 1 then (Some (cs ! 0), snd ck)
                        else (fst (foldl (selectStep pp) (None, None) cs), snd ck)))))"

section \<open>Door search traversal\<close>

text \<open>JavaScript truthiness of \<^verbatim>\<open>child.name\<close>: a string that is present and not empty.\<close>

definition truthy_name :: "string option \<Rightarrow> bool" where
  "truthy_name n = (case n of None \<Rightarrow> False | Some s \<Rightarrow> s \<noteq> [])"

text \<open>
  The part of the loop body of \<^verbatim>\<open>searchForWitherDoors\<close> that calls the prober and attaches
  its answer, or the fallback, to the door. The door is a value here: the traversal's
  writes to the shared door object overwrite all three fields on every collection, so the
  collected list reads the same either way.
\<close>

definition attachFootCoords :: "host \<Rightarrow> room_ref \<Rightarrow> room_ref \<Rightarrow> door \<Rightarrow> door \<times> log_entry list" where
  "attachFootCoords h room child door =
     (let r = calculateFootCoordsWithBlockCheck h
                (Some \<lparr>dc_x = Some (door_x door), dc_z = Some (door_z door)\<rparr>) FLOOR_Y None
      in case fst r of
           Some footCoords \<Rightarrow>
             (door\<lparr>door_footX := Some (real_of_int (footX footCoords)),
                   door_footY := Some (real_of_int (footY footCoords)),
                   door_footZ := Some (real_of_int (footZ footCoords))\<rparr>,
              snd r)
         | None \<Rightarrow>
             (door\<lparr>door_footX := Some (door_x door),
                   door_footY := Some (real_of_int FLOOR_Y),
                   door_footZ := Some (door_z door)\<rparr>,
              snd r @ [ConsoleWarn_fallback (room_name (rooms h room)) (room_name (rooms h child))
                         (door_x door) (door_z door)]))"

text \<open>
  \<^verbatim>\<open>searchForWitherDoors\<close> returns its boolean together with the doors it pushed onto
  \<^verbatim>\<open>doorsToRender\<close> and the lines it logged, both in the order of the pushes. The
  accumulator of the \<^verbatim>\<open>for\<close> loop is (\<^verbatim>\<open>pathShouldTerminate\<close>, pushed doors, log).
\<close>

function searchForWitherDoors :: "host \<Rightarrow> room_ref option \<Rightarrow> nat \<Rightarrow> bool \<times> door list \<times> log_entry list" where
  "searchForWitherDoors h room doorsFound =
     (if 2 \<le> doorsFound then (True, [], [])
      else case room of
             None \<Rightarrow> (False, [], [])
           | Some r \<Rightarrow>
               (case room_children (rooms h r) of
                  None \<Rightarrow> (False, [], [])
                | Some children \<Rightarrow>
                    foldl (\<lambda>acc child.
                             case child of
                               None \<Rightarrow> acc
                             | Some c \<Rightarrow>
                                 if \<not> truthy_name (room_name (rooms h c)) then acc
                                 else (case getDoorBetweenRooms h r c of
                                         None \<Rightarrow> acc
                                       | Some door \<Rightarrow>
                                           if door_type door \<notin> set TypesToESP \<or> door_opened door then acc
                                           else (let a = attachFootCoords h r c door;
                                                     sub = searchForWitherDoors h (Some c) (doorsFound + 1)
                                                 in (fst acc \<or> fst sub,
                                                     fst (snd acc) @ [fst a] @ fst (snd sub),
                                                     snd (snd acc) @ snd a @ snd (snd sub)))))
                          (False, [], []) children))"
  by pat_completeness auto
termination
  by (relation "measure (\<lambda>(h, room, doorsFound). 2 - doorsFound)") auto

declare searchForWitherDoors.simps [simp del]

section \<open>State change publisher\<close>

text \<open>One entry of the array \<^verbatim>\<open>doorsData\<close>.\<close>

record door_data =
  dd_x :: real
  dd_z :: real
  dd_type :: string
  dd_opened :: bool
  dd_footX :: "real option"
  dd_footY :: "real option"
  dd_footZ :: "real option"

record gotoCoords =
  goto_x :: "real option"
  goto_y :: "real option"
  goto_z :: "real option"

text \<open>
  The JSON texts handed to \<^verbatim>\<open>sendWebSocketMessage\<close>. \<^verbatim>\<open>JSON.stringify\<close> writes the keys of
  these object literals in a fixed order, so two texts are equal exactly when the values
  they were made from are: a text is represented by those values.
  \<open>DoorLocations ds\<close> is \<^verbatim>\<open>{type: "doorLocations", doors: ds}\<close> and \<open>Action_GOTO c\<close> is
  \<^verbatim>\<open>{type: "action", action: "GOTO", sender: "ChatTriggers", data: c}\<close>.
\<close>

datatype message = DoorLocations "door_data list" | Action_GOTO gotoCoords

text \<open>
  The module's variables. \<^verbatim>\<open>doorsToRender\<close> and \<^verbatim>\<open>lastSentDoorsJson\<close> are declared with
  \<^verbatim>\<open>let\<close>. \<^verbatim>\<open>isAutoGotoEnabled\<close> and \<^verbatim>\<open>lastSentGotoCoords\<close> are never declared: each
  comes into being as a global with the first assignment that runs, and reading it before
  that throws a \<^verbatim>\<open>ReferenceError\<close>. \<open>Undeclared\<close> is the variable that does not exist yet;
  the value \<open>None\<close> of a declared \<open>lastSentGotoCoords\<close> is \<^verbatim>\<open>null\<close>.
\<close>

datatype 'a global = Undeclared | Declared 'a

datatype js_error = ReferenceError string

record esp_state =
  doorsToRender :: "door list"
  lastSentDoorsJson :: "message option"
  isAutoGotoEnabled :: "bool global"
  lastSentGotoCoords :: "gotoCoords option global"

definition shouldBeActive :: "host \<Rightarrow> bool" where
  "shouldBeActive h = (Config_witherDoorEsp h \<and> Dungeon_inDungeon h \<and> \<not> Dungeon_bossEntry h)"

text \<open>The reset both early returns of the tick handler perform.\<close>

definition resetTracked :: "esp_state \<Rightarrow> esp_state" where
  "resetTracked st =
     (let st1 = (if 0 < length (doorsToRender st) \<or> lastSentDoorsJson st \<noteq> None
                 then st\<lparr>doorsToRender := [], lastSentDoorsJson := None\<rparr>
                 else st)
      in st1\<lparr>lastSentGotoCoords := Declared None\<rparr>)"

definition toDoorData :: "host \<Rightarrow> door \<Rightarrow> door_data" where
  "toDoorData h door =
     \<lparr>dd_x = door_x door, dd_z = door_z door, dd_type = DoorTypes_label h (door_type door),
      dd_opened = door_opened door,
      dd_footX = door_footX door, dd_footY = door_footY door, dd_footZ = door_footZ door\<rparr>"

definition doorsDataOf :: "host \<Rightarrow> door list \<Rightarrow> door_data list" where
  "doorsDataOf h ds =
     filter (\<lambda>d. dd_footX d \<noteq> None \<and> dd_footZ d \<noteq> None) (map (toDoorData h) ds)"

text \<open>
  The door-locations part of the tick handler. The second component lists the texts passed
  to \<^verbatim>\<open>sendWebSocketMessage\<close>, which forwards a text to the socket when the connection is
  open.
\<close>

definition publishDoors :: "door_data list \<Rightarrow> esp_state \<Rightarrow> esp_state \<times> message list" where
  "publishDoors doorsData st =
     (if 0 < length doorsData then
        (let currentDoorsJson = DoorLocations doorsData
         in if Some currentDoorsJson \<noteq> lastSentDoorsJson st
            then (st\<lparr>lastSentDoorsJson := Some currentDoorsJson\<rparr>, [currentDoorsJson])
            else (st, []))
      else if lastSentDoorsJson st \<noteq> None then
        (let emptyListJson = DoorLocations []
         in if lastSentDoorsJson st \<noteq> Some emptyListJson
            then (st\<lparr>lastSentDoorsJson := Some emptyListJson\<rparr>, [emptyListJson])
            else (st, []))
      else (st, []))"

text \<open>
  The auto GOTO part of the tick handler: new state, texts passed to
  \<^verbatim>\<open>sendWebSocketMessage\<close>, and the error that ended it, if any. The condition
  \<^verbatim>\<open>if (isAutoGotoEnabled)\<close> reads the toggle, and both branches below it read
  \<^verbatim>\<open>lastSentGotoCoords\<close> before anything is sent or assigned.
\<close>

definition autoGoto :: "door_data list \<Rightarrow> esp_state \<Rightarrow> esp_state \<times> message list \<times> js_error option" where
  "autoGoto doorsData st =
     (let currentTargetDoor = (if 0 < length doorsData then Some (doorsData ! 0) else None)
      in case isAutoGotoEnabled st of
           Undeclared \<Rightarrow> (st, [], Some (ReferenceError ''isAutoGotoEnabled''))
         | Declared enabled \<Rightarrow>
             if enabled then
               (case currentTargetDoor of
                  Some t \<Rightarrow>
                    (let newGotoCoords = \<lparr>goto_x = dd_footX t, goto_y = dd_footY t, goto_z = dd_footZ t\<rparr>
                     in case lastSentGotoCoords st of
                          Undeclared \<Rightarrow> (st, [], Some (ReferenceError ''lastSentGotoCoords''))
                        | Declared lastSent \<Rightarrow>
                            (let shouldSendGoto =
                                   (case lastSent of
                                      None \<Rightarrow> True
                                    | Some l \<Rightarrow> goto_x l \<noteq> goto_x newGotoCoords \<or>
                                                goto_y l \<noteq> goto_y newGotoCoords \<or>
                                                goto_z l \<noteq> goto_z newGotoCoords)
                             in if shouldSendGoto
                                then (st\<lparr>lastSentGotoCoords := Declared (Some newGotoCoords)\<rparr>,
                                      [Action_GOTO newGotoCoords], None)
                                else (st, [], None)))
                | None \<Rightarrow>
                    (case lastSentGotoCoords st of
                       Undeclared \<Rightarrow> (st, [], Some (ReferenceError ''lastSentGotoCoords''))
                     | Declared lastSent \<Rightarrow>
                         (if lastSent \<noteq> None then st\<lparr>lastSentGotoCoords := Declared None\<rparr> else st, [], None)))
             else (st, [], None))"

text \<open>
  The \<^verbatim>\<open>tick\<close> callback: new state, texts passed to \<^verbatim>\<open>sendWebSocketMessage\<close> in order,
  the lines logged, and the error that ended the callback, if any. An error of the auto GOTO
  part leaves the door list, the snapshot and the texts already sent as they are.
\<close>

definition tick :: "host \<Rightarrow> esp_state \<Rightarrow> esp_state \<times> message list \<times> log_entry list \<times> js_error option" where
  "tick h st =
     (if \<not> shouldBeActive h then (resetTracked st, [], [], None)
      else case getCurrentRoom h of
             None \<Rightarrow> (resetTracked st, [], [], None)
           | Some currentRoom \<Rightarrow>
               (let found = searchForWitherDoors h (Some currentRoom) 0;
                    st1 = st\<lparr>doorsToRender := fst (snd found)\<rparr>;
                    doorsData = doorsDataOf h (doorsToRender st1);
                    p = publishDoors doorsData st1;
                    g = autoGoto doorsData (fst p)
                in (fst g, snd p @ fst (snd g), snd (snd found), snd (snd g))))"

text \<open>
  The \<^verbatim>\<open>gotodoor\<close> command callback. Its first statement reads the toggle to negate it:
  while the toggle is undeclared the callback ends there with the error and changes nothing.
\<close>

definition gotodoor :: "esp_state \<Rightarrow> js_error + esp_state" where
  "gotodoor st =
     (case isAutoGotoEnabled st of
        Undeclared \<Rightarrow> Inl (ReferenceError ''isAutoGotoEnabled'')
      | Declared enabled \<Rightarrow>
          (let st1 = st\<lparr>isAutoGotoEnabled := Declared (\<not> enabled)\<rparr>
           in if \<not> enabled then Inr (st1\<lparr>lastSentGotoCoords := Declared None\<rparr>)
              else Inr (st1\<lparr>lastSentGotoCoords := Declared None\<rparr>)))"

text \<open>The \<^verbatim>\<open>worldUnload\<close> callback: four assignments, the last two creating the globals.\<close>

definition worldUnload :: "esp_state \<Rightarrow> esp_state" where
  "worldUnload st =
     st\<lparr>doorsToRender := [], lastSentDoorsJson := None, isAutoGotoEnabled := Declared False,
        lastSentGotoCoords := Declared None\<rparr>"

text \<open>
  The life of the module as the host drives it: a sequence of callbacks, starting from the
  module as loaded. A configuration is the state together with every text passed to
  \<^verbatim>\<open>sendWebSocketMessage\<close> so far, oldest first. A callback that ends with an error keeps
  what it did before.
\<close>

datatype event = Tick host | Command_gotodoor | WorldUnload

definition step :: "esp_state \<times> message list \<Rightarrow> event \<Rightarrow> esp_state \<times> message list" where
  "step c e =
     (case e of
        Tick h \<Rightarrow> (fst (tick h (fst c)), snd c @ fst (snd (tick h (fst c))))
      | Command_gotodoor \<Rightarrow> (case gotodoor (fst c) of Inl err \<Rightarrow> fst c | Inr st \<Rightarrow> st, snd c)
      | WorldUnload \<Rightarrow> (worldUnload (fst c), snd c))"

section \<open>The walk in closed form\<close>

text \<open>
  Auxiliary notions for stating what the traversal collects. \<open>children_of\<close> is the array the
  loop runs over (nothing when the property is missing). \<open>collected h r child\<close> is the door the
  loop body accepts for one array entry: the entry is a room with a name, the accessor has a
  door between the two rooms, its type is of interest and it is not opened.
\<close>

definition children_of :: "host \<Rightarrow> room_ref \<Rightarrow> room_ref option list" where
  "children_of h r = (case room_children (rooms h r) of None \<Rightarrow> [] | Some children \<Rightarrow> children)"

definition collected :: "host \<Rightarrow> room_ref \<Rightarrow> room_ref option \<Rightarrow> (room_ref \<times> door) option" where
  "collected h r child =
     (case child of
        None \<Rightarrow> None
      | Some c \<Rightarrow>
          if \<not> truthy_name (room_name (rooms h c)) then None
          else (case getDoorBetweenRooms h r c of
                  None \<Rightarrow> None
                | Some door \<Rightarrow>
                    if door_type door \<in> {WITHER, BLOOD} \<and> \<not> door_opened door then Some (c, door)
                    else None))"

text \<open>What one round of the loop adds: the flag, the doors and the log lines.\<close>

definition visit :: "host \<Rightarrow> room_ref \<Rightarrow> nat \<Rightarrow> room_ref option \<Rightarrow> bool \<times> door list \<times> log_entry list" where
  "visit h r doorsFound child =
     (case collected h r child of
        None \<Rightarrow> (False, [], [])
      | Some (c, door) \<Rightarrow>
          (fst (searchForWitherDoors h (Some c) (doorsFound + 1)),
           fst (attachFootCoords h r c door) # fst (snd (searchForWitherDoors h (Some c) (doorsFound + 1))),
           snd (attachFootCoords h r c door) @ snd (snd (searchForWitherDoors h (Some c) (doorsFound + 1)))))"

text \<open>
  The door sequence as the spec describes the walk, written out for the two levels that the
  found-count bound admits: for every child of the start room whose door is accepted, that
  door with its standing position, followed by the accepted doors of the child's own
  children; children-array order throughout.
\<close>

definition spec_second_level :: "host \<Rightarrow> room_ref \<Rightarrow> door list" where
  "spec_second_level h r =
     concat (map (\<lambda>child. case collected h r child of
                             None \<Rightarrow> []
                           | Some (c, door) \<Rightarrow> [fst (attachFootCoords h r c door)])
                 (children_of h r))"

definition spec_walk :: "host \<Rightarrow> room_ref \<Rightarrow> door list" where
  "spec_walk h r =
     concat (map (\<lambda>child. case collected h r child of
                             None \<Rightarrow> []
                           | Some (c, door) \<Rightarrow> fst (attachFootCoords h r c door) # spec_second_level h c)
                 (children_of h r))"

text \<open>No direction passed the clearance check.\<close>

definition no_open_side :: "checks \<Rightarrow> bool" where
  "no_open_side ck = (\<not> north ck \<and> \<not> south ck \<and> \<not> east ck \<and> \<not> west ck)"

text \<open>
  The filtered door sequence \<^verbatim>\<open>doorsData\<close> that a tick computes when the feature is active
  and the current room resolves.
\<close>

definition filteredDoors :: "host \<Rightarrow> door_data list" where
  "filteredDoors h =
     doorsDataOf h (fst (snd (searchForWitherDoors h (getCurrentRoom h) 0)))"

definition is_doorLocations :: "message \<Rightarrow> bool" where
  "is_doorLocations m = (case m of DoorLocations ds \<Rightarrow> True | Action_GOTO c \<Rightarrow> False)"

definition is_action :: "message \<Rightarrow> bool" where
  "is_action m = (case m of DoorLocations ds \<Rightarrow> False | Action_GOTO c \<Rightarrow> True)"

text \<open>The most recent door-locations text among the texts sent so far.\<close>

definition lastEmittedDoors :: "message list \<Rightarrow> message option" where
  "lastEmittedDoors out = (case rev (filter is_doorLocations out) of [] \<Rightarrow> None | m # ms \<Rightarrow> Some m)"

text \<open>The standing coordinates of the first entry of the filtered door sequence.\<close>

definition targetCoords :: "host \<Rightarrow> gotoCoords" where
  "targetCoords h =
     \<lparr>goto_x = dd_footX (filteredDoors h ! 0), goto_y = dd_footY (filteredDoors h ! 0),
      goto_z = dd_footZ (filteredDoors h ! 0)\<rparr>"

section \<open>Example hosts\<close>

text \<open>Worlds: all air, all stone, air exactly above the listed (x, z) cells, every lookup throwing.\<close>

definition world_air :: "int \<Rightarrow> int \<Rightarrow> int \<Rightarrow> string + int" where
  "world_air bx bh bz = Inr 0"

definition world_stone :: "int \<Rightarrow> int \<Rightarrow> int \<Rightarrow> string + int" where
  "world_stone bx bh bz = Inr 1"

definition world_air_at :: "(int \<times> int) list \<Rightarrow> int \<Rightarrow> int \<Rightarrow> int \<Rightarrow> string + int" where
  "world_air_at cells bx bh bz = (if (bx, bz) \<in> set cells then Inr 0 else Inr 1)"


definition type_label :: "door_type \<Rightarrow> string" where
  "type_label t = (case t of NORMAL \<Rightarrow> ''NORMAL'' | WITHER \<Rightarrow> ''WITHER'' | BLOOD \<Rightarrow> ''BLOOD''
                   | ENTRANCE \<Rightarrow> ''ENTRANCE'')"

text \<open>An active host: feature enabled, in a dungeon, not in the boss room; player at (0.5, 69, 5.5).\<close>

definition example_host ::
  "(room_ref \<Rightarrow> room) \<Rightarrow> room_ref option \<Rightarrow> (room_ref \<Rightarrow> room_ref \<Rightarrow> door option) \<Rightarrow>
   (int \<Rightarrow> int \<Rightarrow> int \<Rightarrow> string + int) \<Rightarrow> host" where
  "example_host rs cur drs w =
     \<lparr>Config_witherDoorEsp = True, Dungeon_inDungeon = True, Dungeon_bossEntry = False,
      getCurrentRoom = cur, rooms = rs, getDoorBetweenRooms = drs, World_getBlockAt = w,
      Player_getX = 1 / 2, Player_getY = 69, Player_getZ = 11 / 2, DoorTypes_label = type_label\<rparr>"

definition named_room :: "string \<Rightarrow> room_ref list \<Rightarrow> room" where
  "named_room n cs = \<lparr>room_name = Some n, room_children = Some (map Some cs)\<rparr>"

definition new_door :: "real \<Rightarrow> real \<Rightarrow> door_type \<Rightarrow> bool \<Rightarrow> door" where
  "new_door dx dz t opn =
     \<lparr>door_x = dx, door_z = dz, door_type = t, door_opened = opn,
      door_footX = None, door_footY = None, door_footZ = None\<rparr>"

text \<open>A lone room without children and without doors.\<close>

definition no_rooms :: "room_ref \<Rightarrow> room" where
  "no_rooms r = named_room ''Entrance'' []"

definition no_doors :: "room_ref \<Rightarrow> room_ref \<Rightarrow> door option" where
  "no_doors a b = None"

text \<open>
  A small dungeon: the entrance leads to A through an unopened wither door centered at
  (7, -2) and to B through an opened blood door; A leads to C through an unopened wither
  door centered at (0, 30); C leads to D through an unopened blood door. The only air is
  above the cell (9, -2), east of the first door.
\<close>

definition dungeon_rooms :: "room_ref \<Rightarrow> room" where
  "dungeon_rooms r =
     (if r = 0 then named_room ''Entrance'' [1, 2]
      else if r = 1 then named_room ''A'' [3]
      else if r = 2 then named_room ''B'' []
      else if r = 3 then named_room ''C'' [4]
      else named_room ''D'' [])"

definition dungeon_doors :: "room_ref \<Rightarrow> room_ref \<Rightarrow> door option" where
  "dungeon_doors a b =
     (if a = 0 \<and> b = 1 then Some (new_door 7 (-2) WITHER False)
      else if a = 0 \<and> b = 2 then Some (new_door 20 0 BLOOD True)
      else if a = 1 \<and> b = 3 then Some (new_door 0 30 WITHER False)
      else if a = 3 \<and> b = 4 then Some (new_door 0 60 BLOOD False)
      else None)"

definition dungeon_host :: host where
  "dungeon_host = example_host dungeon_rooms (Some 0) dungeon_doors (world_air_at [(9, -2)])"

text \<open>The same dungeon after the first wither door has been opened.\<close>

definition dungeon_doors_opened :: "room_ref \<Rightarrow> room_ref \<Rightarrow> door option" where
  "dungeon_doors_opened a b =
     (if a = 0 \<and> b = 1 then Some (new_door 7 (-2) WITHER True) else dungeon_doors a b)"

definition dungeon_host_opened :: host where
  "dungeon_host_opened =
     example_host dungeon_rooms (Some 0) dungeon_doors_opened (world_air_at [(9, -2)])"

text \<open>A hub with three spokes, each behind an unopened wither door.\<close>

definition star_rooms :: "room_ref \<Rightarrow> room" where
  "star_rooms r = (if r = 0 then named_room ''Hub'' [1, 2, 3] else named_room ''Spoke'' [])"

definition star_doors :: "room_ref \<Rightarrow> room_ref \<Rightarrow> door option" where
  "star_doors a b =
     (if a = 0 \<and> b = 1 then Some (new_door 10 0 WITHER False)
      else if a = 0 \<and> b = 2 then Some (new_door 20 0 WITHER False)
      else if a = 0 \<and> b = 3 then Some (new_door 30 0 WITHER False)
      else None)"

definition star_host :: host where
  "star_host = example_host star_rooms (Some 0) star_doors world_stone"


text \<open>
  Two rooms that list each other as children, with one unopened wither door between them
  that the accessor returns for either order of the rooms.
\<close>

definition loop_rooms :: "room_ref \<Rightarrow> room" where
  "loop_rooms r = (if r = 0 then named_room ''A'' [1] else named_room ''B'' [0])"

definition loop_doors :: "room_ref \<Rightarrow> room_ref \<Rightarrow> door option" where
  "loop_doors a b =
     (if (a = 0 \<and> b = 1) \<or> (a = 1 \<and> b = 0) then Some (new_door 5 5 WITHER False) else None)"

definition loop_host :: host where
  "loop_host = example_host loop_rooms (Some 0) loop_doors world_stone"

text \<open>
  The module's variables when it has just been loaded: the two declared variables hold
  their initial values, the two auto GOTO variables do not exist.
\<close>

definition initial_state :: esp_state where
  "initial_state =
     \<lparr>doorsToRender = [], lastSentDoorsJson = None, isAutoGotoEnabled = Undeclared,
      lastSentGotoCoords = Undeclared\<rparr>"

text \<open>The configuration reached from the loaded module by a sequence of callbacks.\<close>

definition run :: "event list \<Rightarrow> esp_state \<times> message list" where
  "run es = foldl step (initial_state, []) es"

text \<open>The state after a world unload followed by one \<^verbatim>\<open>gotodoor\<close> command: auto GOTO on.\<close>

definition armed_state :: esp_state where
  "armed_state =
     \<lparr>doorsToRender = [], lastSentDoorsJson = None, isAutoGotoEnabled = Declared True,
      lastSentGotoCoords = Declared None\<rparr>"

text \<open>A lone entrance room: the feature is active and the walk finds no door.\<close>

definition lone_host :: host where
  "lone_host = example_host no_rooms (Some 0) no_doors world_air"

section \<open>Properties of the prober\<close>







text \<open>
  C1, as stated, fails: the claim puts the candidate on the door's axis (cross-axis
  coordinate equal to the door center's). For the door centered at (0, 0) with only the
  north side open, the prober answers (2, 69, -3): three cells north, but two cells east of
  the center.
\<close>

theorem C1_cross_axis_counterexample:
  "fst (calculateFootCoordsWithBlockCheck
          (example_host no_rooms None no_doors (world_air_at [(0, -2)]))
          (Some \<lparr>dc_x = Some 0, dc_z = Some 0\<rparr>) 69 None)
     = Some \<lparr>footX = 2, footY = 69, footZ = -3, side = North\<rparr>
   \<and> footX \<lparr>footX = 2, footY = 69, footZ = -3, side = North\<rparr> \<noteq> Math_floor 0"
  by (simp add: calculateFootCoordsWithBlockCheck_def Math_floor_def blockChecks_def isBlockAir_def
      andAlso_def example_host_def world_air_at_def candidates_def AirBlockID_def Let_def)

text \<open>
  C1 (amended): every candidate standing cell has footY equal to the floor elevation and
  belongs to a direction that the clearance check found open; it lies three cells from the
  door center along that direction's axis and two cells off the center across it (north:
  x + 2, south: x - 2, east: z - 2, west: z - 2). Every open direction has its candidate.
\<close>

theorem C1_candidate_offsets:
  "(c \<in> set (candidates ck bx fy bz) \<longrightarrow>
      footY c = fy \<and>
      (side c = North \<longrightarrow> north ck \<and> footZ c = bz - 3 \<and> footX c = bx + 2) \<and>
      (side c = South \<longrightarrow> south ck \<and> footZ c = bz + 3 \<and> footX c = bx - 2) \<and>
      (side c = East \<longrightarrow> east ck \<and> footX c = bx + 3 \<and> footZ c = bz - 2) \<and>
      (side c = West \<longrightarrow> west ck \<and> footX c = bx - 3 \<and> footZ c = bz - 2)) \<and>
   (north ck \<longrightarrow> \<lparr>footX = bx + 2, footY = fy, footZ = bz - 3, side = North\<rparr> \<in> set (candidates ck bx fy bz)) \<and>
   (south ck \<longrightarrow> \<lparr>footX = bx - 2, footY = fy, footZ = bz + 3, side = South\<rparr> \<in> set (candidates ck bx fy bz)) \<and>
   (east ck \<longrightarrow> \<lparr>footX = bx + 3, footY = fy, footZ = bz - 2, side = East\<rparr> \<in> set (candidates ck bx fy bz)) \<and>
   (west ck \<longrightarrow> \<lparr>footX = bx - 3, footY = fy, footZ = bz - 2, side = West\<rparr> \<in> set (candidates ck bx fy bz))"
  by (auto simp: candidates_def split: if_splits)

theorem C1_candidate_offsets_witness:
  "\<lparr>footX = 13, footY = 69, footZ = -6, side = East\<rparr>
     \<in> set (candidates \<lparr>north = True, south = False, east = True, west = False\<rparr> 10 69 (-4)) \<and>
   east \<lparr>north = True, south = False, east = True, west = False\<rparr> \<and>
   \<lparr>footX = 12, footY = 69, footZ = -7, side = North\<rparr>
     \<in> set (candidates \<lparr>north = True, south = False, east = True, west = False\<rparr> 10 69 (-4))"
  using C1_candidate_offsets [of "\<lparr>footX = 13, footY = 69, footZ = -6, side = East\<rparr>"
      "\<lparr>north = True, south = False, east = True, west = False\<rparr>" 10 69 "-4"]
  by simp

lemma example_host_simps:
  "Config_witherDoorEsp (example_host rs cur drs w) = True"
  "Dungeon_inDungeon (example_host rs cur drs w) = True"
  "Dungeon_bossEntry (example_host rs cur drs w) = False"
  "getCurrentRoom (example_host rs cur drs w) = cur"
  "rooms (example_host rs cur drs w) = rs"
  "getDoorBetweenRooms (example_host rs cur drs w) = drs"
  "World_getBlockAt (example_host rs cur drs w) = w"
  "Player_getX (example_host rs cur drs w) = 1 / 2"
  "Player_getY (example_host rs cur drs w) = 69"
  "Player_getZ (example_host rs cur drs w) = 11 / 2"
  "DoorTypes_label (example_host rs cur drs w) = type_label"
  by (simp_all add: example_host_def)

lemma selectStep_first_min:
  "cs \<noteq> [] \<Longrightarrow>
     \<exists>pre r post. cs = pre @ r # post \<and>
       foldl (selectStep pp) (None, None) cs = (Some r, Some (distanceSq pp r)) \<and>
       (\<forall>c\<in>set pre. distanceSq pp r < distanceSq pp c) \<and>
       (\<forall>c\<in>set post. distanceSq pp r \<le> distanceSq pp c)"
proof (induction cs rule: rev_induct)
  case Nil
  then show ?case by simp
next
  case (snoc x ys)
  show ?case
  proof (cases "ys = []")
    case True
    have "[x] = [] @ x # []" by simp
    moreover have "foldl (selectStep pp) (None, None) [x] = (Some x, Some (distanceSq pp x))"
      by (simp add: selectStep_def)
    ultimately show ?thesis using True by fastforce
  next
    case False
    from snoc.IH [OF False] obtain pre r post where
      ys: "ys = pre @ r # post" and
      f: "foldl (selectStep pp) (None, None) ys = (Some r, Some (distanceSq pp r))" and
      lt: "\<forall>c\<in>set pre. distanceSq pp r < distanceSq pp c" and
      le: "\<forall>c\<in>set post. distanceSq pp r \<le> distanceSq pp c"
      by blast
    show ?thesis
    proof (cases "distanceSq pp x < distanceSq pp r")
      case True
      have a: "ys @ [x] = ys @ x # []" by simp
      have b: "foldl (selectStep pp) (None, None) (ys @ [x]) = (Some x, Some (distanceSq pp x))"
        using f True by (simp add: selectStep_def)
      have c: "\<forall>c\<in>set ys. distanceSq pp x < distanceSq pp c"
        using ys lt le True by auto
      show ?thesis using a b c by (metis empty_iff list.set(1))
    next
      case False
      have a: "ys @ [x] = pre @ r # (post @ [x])" using ys by simp
      have b: "foldl (selectStep pp) (None, None) (ys @ [x]) = (Some r, Some (distanceSq pp r))"
        using f False by (simp add: selectStep_def)
      have c: "\<forall>c\<in>set (post @ [x]). distanceSq pp r \<le> distanceSq pp c"
        using le False by auto
      show ?thesis using a b c lt by blast
    qed
  qed
qed

lemma candidates_sides:
  "map side (candidates ck bx fy bz) =
     filter (\<lambda>d. case d of North \<Rightarrow> north ck | South \<Rightarrow> south ck | East \<Rightarrow> east ck | West \<Rightarrow> west ck)
            [North, South, East, West]"
  by (simp add: candidates_def)

lemma candidates_nonempty:
  "candidates ck bx fy bz \<noteq> [] \<longleftrightarrow> north ck \<or> south ck \<or> east ck \<or> west ck"
  by (simp add: candidates_def)

lemma prober_valid:
  "calculateFootCoordsWithBlockCheck h (Some \<lparr>dc_x = Some x, dc_z = Some z\<rparr>) fy pp =
     (let ck = blockChecks h (Math_floor x) fy (Math_floor z);
          cs = candidates (fst ck) (Math_floor x) fy (Math_floor z)
      in if cs = [] then (None, snd ck)
         else if length cs = 1 then (Some (cs ! 0), snd ck)
         else (fst (foldl (selectStep (observer h pp)) (None, None) cs), snd ck))"
  by (simp add: calculateFootCoordsWithBlockCheck_def Let_def)

text \<open>
  C2: when at least one direction is open, the prober returns one of the candidates, taken
  in the test order north, south, east, west. Every candidate tested before the returned one
  is strictly farther from the observer (squared planar distance), every candidate tested
  after it is at least as far: the returned candidate is the first one at minimum distance.
  The observer is the floored position argument, or the floored player position when the
  argument is missing. With a single open direction the result is that direction's candidate
  whatever the observer.
\<close>

theorem C2_closest_candidate:
  assumes ck: "ck = fst (blockChecks h (Math_floor x) fy (Math_floor z))"
    and cs: "cs = candidates ck (Math_floor x) fy (Math_floor z)"
    and obs: "obs = (case pp of
                       None \<Rightarrow> \<lparr>bp_x = \<lfloor>Player_getX h\<rfloor>, bp_y = \<lfloor>Player_getY h\<rfloor>, bp_z = \<lfloor>Player_getZ h\<rfloor>\<rparr>
                     | Some p \<Rightarrow> \<lparr>bp_x = \<lfloor>pos_x p\<rfloor>, bp_y = \<lfloor>pos_y p\<rfloor>, bp_z = \<lfloor>pos_z p\<rfloor>\<rparr>)"
    and opn: "north ck \<or> south ck \<or> east ck \<or> west ck"
  shows "(\<exists>pre r post.
            cs = pre @ r # post \<and>
            fst (calculateFootCoordsWithBlockCheck h (Some \<lparr>dc_x = Some x, dc_z = Some z\<rparr>) fy pp) = Some r \<and>
            (\<forall>c\<in>set pre. (bp_x obs - footX r)\<^sup>2 + (bp_z obs - footZ r)\<^sup>2
                            < (bp_x obs - footX c)\<^sup>2 + (bp_z obs - footZ c)\<^sup>2) \<and>
            (\<forall>c\<in>set post. (bp_x obs - footX r)\<^sup>2 + (bp_z obs - footZ r)\<^sup>2
                            \<le> (bp_x obs - footX c)\<^sup>2 + (bp_z obs - footZ c)\<^sup>2)) \<and>
         (\<forall>c. cs = [c] \<longrightarrow>
            fst (calculateFootCoordsWithBlockCheck h (Some \<lparr>dc_x = Some x, dc_z = Some z\<rparr>) fy pp) = Some c) \<and>
         map side cs =
           filter (\<lambda>d. case d of North \<Rightarrow> north ck | South \<Rightarrow> south ck | East \<Rightarrow> east ck | West \<Rightarrow> west ck)
                  [North, South, East, West]"
proof -
  let ?res = "fst (calculateFootCoordsWithBlockCheck h (Some \<lparr>dc_x = Some x, dc_z = Some z\<rparr>) fy pp)"
  have ne: "cs \<noteq> []"
    using opn cs by (simp add: candidates_nonempty)
  have o: "observer h pp = obs"
    using obs by (cases pp) (simp_all add: observer_def Math_floor_def)
  have d: "\<And>c. distanceSq obs c = (bp_x obs - footX c)\<^sup>2 + (bp_z obs - footZ c)\<^sup>2"
    by (simp add: distanceSq_def Let_def power2_eq_square)
  have res: "?res = (if length cs = 1 then Some (cs ! 0) else fst (foldl (selectStep obs) (None, None) cs))"
    using ne ck cs o by (simp add: prober_valid Let_def)
  from selectStep_first_min [OF ne, of obs] obtain pre r post where
    sp: "cs = pre @ r # post" and
    f: "foldl (selectStep obs) (None, None) cs = (Some r, Some (distanceSq obs r))" and
    lt: "\<forall>c\<in>set pre. distanceSq obs r < distanceSq obs c" and
    le: "\<forall>c\<in>set post. distanceSq obs r \<le> distanceSq obs c"
    by blast
  have one: "length cs = 1 \<Longrightarrow> cs ! 0 = r"
    using sp by (cases pre) auto
  have "?res = Some r"
    using res f one by auto
  then have first: "\<exists>pre r post.
            cs = pre @ r # post \<and> ?res = Some r \<and>
            (\<forall>c\<in>set pre. (bp_x obs - footX r)\<^sup>2 + (bp_z obs - footZ r)\<^sup>2
                            < (bp_x obs - footX c)\<^sup>2 + (bp_z obs - footZ c)\<^sup>2) \<and>
            (\<forall>c\<in>set post. (bp_x obs - footX r)\<^sup>2 + (bp_z obs - footZ r)\<^sup>2
                            \<le> (bp_x obs - footX c)\<^sup>2 + (bp_z obs - footZ c)\<^sup>2)"
    using sp lt le unfolding d by blast
  have single: "\<forall>c. cs = [c] \<longrightarrow> ?res = Some c"
    using res by simp
  have order: "map side cs =
           filter (\<lambda>d. case d of North \<Rightarrow> north ck | South \<Rightarrow> south ck | East \<Rightarrow> east ck | West \<Rightarrow> west ck)
                  [North, South, East, West]"
    using cs by (simp only: candidates_sides)
  show ?thesis
    using first single order by blast
qed

theorem C2_closest_candidate_witness:
  "(north (fst (blockChecks (example_host no_rooms None no_doors world_air) (Math_floor 0) 69 (Math_floor 0))) \<or>
    south (fst (blockChecks (example_host no_rooms None no_doors world_air) (Math_floor 0) 69 (Math_floor 0))) \<or>
    east (fst (blockChecks (example_host no_rooms None no_doors world_air) (Math_floor 0) 69 (Math_floor 0))) \<or>
    west (fst (blockChecks (example_host no_rooms None no_doors world_air) (Math_floor 0) 69 (Math_floor 0)))) \<and>
   map side (candidates (fst (blockChecks (example_host no_rooms None no_doors world_air) (Math_floor 0) 69 (Math_floor 0)))
              (Math_floor 0) 69 (Math_floor 0)) = [North, South, East, West] \<and>
   fst (calculateFootCoordsWithBlockCheck (example_host no_rooms None no_doors world_air)
          (Some \<lparr>dc_x = Some 0, dc_z = Some 0\<rparr>) 69 (Some \<lparr>pos_x = 1 / 2, pos_y = 69, pos_z = 1 / 2\<rparr>))
     = Some \<lparr>footX = 2, footY = 69, footZ = -3, side = North\<rparr> \<and>
   fst (calculateFootCoordsWithBlockCheck (example_host no_rooms None no_doors world_air)
          (Some \<lparr>dc_x = Some 0, dc_z = Some 0\<rparr>) 69 None)
     = Some \<lparr>footX = -2, footY = 69, footZ = 3, side = South\<rparr>"
proof -
  let ?h = "example_host no_rooms None no_doors world_air"
  have ck: "\<And>bx bz. fst (blockChecks ?h bx 69 bz)
              = \<lparr>north = True, south = True, east = True, west = True\<rparr>"
    by (simp add: blockChecks_def isBlockAir_def andAlso_def example_host_simps world_air_def
        AirBlockID_def Let_def)
  have opn: "north (fst (blockChecks ?h (Math_floor 0) 69 (Math_floor 0))) \<or>
             south (fst (blockChecks ?h (Math_floor 0) 69 (Math_floor 0))) \<or>
             east (fst (blockChecks ?h (Math_floor 0) 69 (Math_floor 0))) \<or>
             west (fst (blockChecks ?h (Math_floor 0) 69 (Math_floor 0)))"
    by (simp add: ck)
  note inst = C2_closest_candidate [OF refl refl refl opn, of "Some \<lparr>pos_x = 1 / 2, pos_y = 69, pos_z = 1 / 2\<rparr>"]
  have tie: "fst (calculateFootCoordsWithBlockCheck ?h
          (Some \<lparr>dc_x = Some 0, dc_z = Some 0\<rparr>) 69 (Some \<lparr>pos_x = 1 / 2, pos_y = 69, pos_z = 1 / 2\<rparr>))
     = Some \<lparr>footX = 2, footY = 69, footZ = -3, side = North\<rparr>"
    by (simp add: prober_valid ck candidates_def Math_floor_def observer_def selectStep_def
        distanceSq_def Let_def)
  have near: "fst (calculateFootCoordsWithBlockCheck ?h
          (Some \<lparr>dc_x = Some 0, dc_z = Some 0\<rparr>) 69 None)
     = Some \<lparr>footX = -2, footY = 69, footZ = 3, side = South\<rparr>"
    by (simp add: prober_valid ck candidates_def Math_floor_def observer_def selectStep_def
        distanceSq_def example_host_simps Let_def)
  show ?thesis
    using inst opn tie near by (simp add: ck)
qed

section \<open>Properties of the traversal\<close>

lemma loop_round:
  "(\<lambda>acc child.
      case child of
        None \<Rightarrow> acc
      | Some c \<Rightarrow>
          if \<not> truthy_name (room_name (rooms h c)) then acc
          else (case getDoorBetweenRooms h r c of
                  None \<Rightarrow> acc
                | Some door \<Rightarrow>
                    if door_type door \<notin> set TypesToESP \<or> door_opened door then acc
                    else (let a = attachFootCoords h r c door;
                              sub = searchForWitherDoors h (Some c) (n + 1)
                          in (fst acc \<or> fst sub,
                              fst (snd acc) @ [fst a] @ fst (snd sub),
                              snd (snd acc) @ snd a @ snd (snd sub)))))
   = (\<lambda>acc child. (fst acc \<or> fst (visit h r n child),
                     fst (snd acc) @ fst (snd (visit h r n child)),
                     snd (snd acc) @ snd (snd (visit h r n child))))"
proof (intro ext)
  fix acc :: "bool \<times> door list \<times> log_entry list" and child
  show "(case child of
        None \<Rightarrow> acc
      | Some c \<Rightarrow>
          if \<not> truthy_name (room_name (rooms h c)) then acc
          else (case getDoorBetweenRooms h r c of
                  None \<Rightarrow> acc
                | Some door \<Rightarrow>
                    if door_type door \<notin> set TypesToESP \<or> door_opened door then acc
                    else (let a = attachFootCoords h r c door;
                              sub = searchForWitherDoors h (Some c) (n + 1)
                          in (fst acc \<or> fst sub,
                              fst (snd acc) @ [fst a] @ fst (snd sub),
                              snd (snd acc) @ snd a @ snd (snd sub)))))
     = (fst acc \<or> fst (visit h r n child),
        fst (snd acc) @ fst (snd (visit h r n child)),
        snd (snd acc) @ snd (snd (visit h r n child)))"
    by (cases acc) (simp add: visit_def collected_def TypesToESP_def Let_def split: option.splits)
qed

lemma foldl_rounds:
  "foldl (\<lambda>acc child. (fst acc \<or> fst (f child), fst (snd acc) @ fst (snd (f child)),
                        snd (snd acc) @ snd (snd (f child)))) (t, ds, lg) cs
   = (t \<or> list_ex (\<lambda>child. fst (f child)) cs,
      ds @ concat (map (\<lambda>child. fst (snd (f child))) cs),
      lg @ concat (map (\<lambda>child. snd (snd (f child))) cs))"
  by (induction cs arbitrary: t ds lg) auto

lemma search_unfold:
  "searchForWitherDoors h room n =
     (if 2 \<le> n then (True, [], [])
      else case room of
             None \<Rightarrow> (False, [], [])
           | Some r \<Rightarrow>
               (case room_children (rooms h r) of
                  None \<Rightarrow> (False, [], [])
                | Some children \<Rightarrow>
                    (list_ex (\<lambda>child. fst (visit h r n child)) children,
                     concat (map (\<lambda>child. fst (snd (visit h r n child))) children),
                     concat (map (\<lambda>child. snd (snd (visit h r n child))) children))))"
  apply (subst searchForWitherDoors.simps)
  apply (simp only: loop_round)
  apply (simp add: foldl_rounds split: option.splits)
  done

lemma search_doors:
  "fst (snd (searchForWitherDoors h (Some r) n)) =
     (if 2 \<le> n then [] else concat (map (\<lambda>child. fst (snd (visit h r n child))) (children_of h r)))"
  by (subst search_unfold) (simp add: children_of_def split: option.splits)

lemma search_second_level: "fst (snd (searchForWitherDoors h (Some r) (Suc 0))) = spec_second_level h r"
proof -
  have "\<And>child. fst (snd (visit h r (Suc 0) child)) =
      (case collected h r child of None \<Rightarrow> [] | Some (c, door) \<Rightarrow> [fst (attachFootCoords h r c door)])"
    by (simp add: visit_def search_doors split: option.splits)
  then show ?thesis by (simp add: search_doors spec_second_level_def)
qed

lemma search_walk: "fst (snd (searchForWitherDoors h (Some r) 0)) = spec_walk h r"
proof -
  have "\<And>child. fst (snd (visit h r 0 child)) =
      (case collected h r child of None \<Rightarrow> []
       | Some (c, door) \<Rightarrow> fst (attachFootCoords h r c door) # spec_second_level h c)"
    by (simp add: visit_def search_second_level split: option.splits)
  then show ?thesis by (simp add: search_doors spec_walk_def)
qed

lemma prober_result_candidate:
  assumes "fst (calculateFootCoordsWithBlockCheck h (Some \<lparr>dc_x = Some x, dc_z = Some z\<rparr>) fy pp) = Some c"
  shows "c \<in> set (candidates (fst (blockChecks h (Math_floor x) fy (Math_floor z))) (Math_floor x) fy (Math_floor z))"
proof -
  let ?cs = "candidates (fst (blockChecks h (Math_floor x) fy (Math_floor z))) (Math_floor x) fy (Math_floor z)"
  have ne: "?cs \<noteq> []"
    using assms by (auto simp: prober_valid Let_def)
  from selectStep_first_min [OF ne, of "observer h pp"] obtain pre r post where
    sp: "?cs = pre @ r # post" and
    f: "foldl (selectStep (observer h pp)) (None, None) ?cs = (Some r, Some (distanceSq (observer h pp) r))"
    by blast
  have one: "length ?cs = 1 \<Longrightarrow> ?cs ! 0 = r"
    using sp by (cases pre) auto
  have "c = r"
    using assms ne f one by (auto simp: prober_valid Let_def split: if_splits)
  then show ?thesis
    using sp by simp
qed

lemma prober_none:
  "fst (calculateFootCoordsWithBlockCheck h (Some \<lparr>dc_x = Some x, dc_z = Some z\<rparr>) fy pp) = None \<longleftrightarrow>
     no_open_side (fst (blockChecks h (Math_floor x) fy (Math_floor z)))"
proof -
  let ?cs = "candidates (fst (blockChecks h (Math_floor x) fy (Math_floor z))) (Math_floor x) fy (Math_floor z)"
  have e: "?cs = [] \<longleftrightarrow> no_open_side (fst (blockChecks h (Math_floor x) fy (Math_floor z)))"
    using candidates_nonempty [of "fst (blockChecks h (Math_floor x) fy (Math_floor z))" "Math_floor x" fy "Math_floor z"]
    by (auto simp: no_open_side_def)
  show ?thesis
  proof (cases "?cs = []")
    case True
    then show ?thesis using e by (simp add: prober_valid Let_def)
  next
    case False
    from selectStep_first_min [OF False, of "observer h pp"] obtain r where
      "foldl (selectStep (observer h pp)) (None, None) ?cs = (Some r, Some (distanceSq (observer h pp) r))"
      by blast
    then show ?thesis using False e by (simp add: prober_valid Let_def)
  qed
qed

lemma prober_log:
  "snd (calculateFootCoordsWithBlockCheck h (Some \<lparr>dc_x = Some x, dc_z = Some z\<rparr>) fy pp) =
     snd (blockChecks h (Math_floor x) fy (Math_floor z))"
  by (simp add: prober_valid Let_def)

lemma attach_fallback:
  assumes "no_open_side (fst (blockChecks h (Math_floor (door_x d)) FLOOR_Y (Math_floor (door_z d))))"
  shows "attachFootCoords h r c d =
           (d\<lparr>door_footX := Some (door_x d), door_footY := Some 69, door_footZ := Some (door_z d)\<rparr>,
            snd (blockChecks h (Math_floor (door_x d)) FLOOR_Y (Math_floor (door_z d))) @
            [ConsoleWarn_fallback (room_name (rooms h r)) (room_name (rooms h c)) (door_x d) (door_z d)])"
proof -
  have "fst (calculateFootCoordsWithBlockCheck h
               (Some \<lparr>dc_x = Some (door_x d), dc_z = Some (door_z d)\<rparr>) FLOOR_Y None) = None"
    using assms by (simp add: prober_none)
  then show ?thesis
    by (simp add: attachFootCoords_def Let_def prober_log FLOOR_Y_def)
qed

lemma attach_kept:
  "door_x (fst (attachFootCoords h r c d)) = door_x d \<and>
   door_z (fst (attachFootCoords h r c d)) = door_z d \<and>
   door_type (fst (attachFootCoords h r c d)) = door_type d \<and>
   door_opened (fst (attachFootCoords h r c d)) = door_opened d"
  by (simp add: attachFootCoords_def Let_def split: option.splits)

lemma attach_foot:
  "door_footX (fst (attachFootCoords h r c d)) \<noteq> None \<and>
   door_footY (fst (attachFootCoords h r c d)) = Some 69 \<and>
   door_footZ (fst (attachFootCoords h r c d)) \<noteq> None"
proof (cases "fst (calculateFootCoordsWithBlockCheck h
               (Some \<lparr>dc_x = Some (door_x d), dc_z = Some (door_z d)\<rparr>) FLOOR_Y None)")
  case None
  then show ?thesis
    by (simp add: attachFootCoords_def Let_def FLOOR_Y_def)
next
  case (Some cand)
  from prober_result_candidate [OF Some] have "footY cand = FLOOR_Y"
    by (auto simp: candidates_def split: if_splits)
  then show ?thesis
    using Some by (simp add: attachFootCoords_def Let_def FLOOR_Y_def)
qed

lemma search_logs:
  "snd (snd (searchForWitherDoors h (Some r) n)) =
     (if 2 \<le> n then [] else concat (map (\<lambda>child. snd (snd (visit h r n child))) (children_of h r)))"
  by (subst search_unfold) (simp add: children_of_def split: option.splits)

lemma search_stop: "2 \<le> n \<Longrightarrow> searchForWitherDoors h room n = (True, [], [])"
  by (subst search_unfold) simp

lemma search_no_room: "fst (snd (searchForWitherDoors h None n)) = []"
  by (subst search_unfold) simp

lemma collected_iff:
  "collected h r child = Some (c, d) \<longleftrightarrow>
     child = Some c \<and> truthy_name (room_name (rooms h c)) \<and> getDoorBetweenRooms h r c = Some d \<and>
     door_type d \<in> {WITHER, BLOOD} \<and> \<not> door_opened d"
  by (auto simp: collected_def split: option.splits if_splits)

lemma search_doors_cases:
  assumes "d \<in> set (fst (snd (searchForWitherDoors h room n)))"
  shows "\<exists>r child c door. room = Some r \<and> n < 2 \<and> child \<in> set (children_of h r) \<and>
           collected h r child = Some (c, door) \<and>
           (d = fst (attachFootCoords h r c door) \<or>
            d \<in> set (fst (snd (searchForWitherDoors h (Some c) (n + 1)))))"
proof (cases room)
  case None
  then show ?thesis using assms by (simp add: search_no_room)
next
  case (Some r)
  have n: "n < 2"
    using assms Some by (cases "2 \<le> n") (simp_all add: search_doors)
  then obtain child where ch: "child \<in> set (children_of h r)" and
    dv: "d \<in> set (fst (snd (visit h r n child)))"
    using assms Some by (auto simp: search_doors)
  then obtain c door where co: "collected h r child = Some (c, door)"
    by (cases "collected h r child") (auto simp: visit_def)
  have "d = fst (attachFootCoords h r c door) \<or>
        d \<in> set (fst (snd (searchForWitherDoors h (Some c) (n + 1))))"
    using dv co by (auto simp: visit_def)
  then show ?thesis using Some n ch co by blast
qed

lemma search_doors_props:
  "d \<in> set (fst (snd (searchForWitherDoors h room n))) \<Longrightarrow>
     door_footX d \<noteq> None \<and> door_footY d = Some 69 \<and> door_footZ d \<noteq> None \<and>
     door_type d \<in> {WITHER, BLOOD} \<and> \<not> door_opened d"
proof (induction "2 - n" arbitrary: n room d)
  case 0
  then have "2 \<le> n" by simp
  then show ?case using "0.prems" by (simp add: search_stop)
next
  case (Suc k)
  from search_doors_cases [OF Suc.prems] obtain r child c door where
    co: "collected h r child = Some (c, door)" and
    alt: "d = fst (attachFootCoords h r c door) \<or>
          d \<in> set (fst (snd (searchForWitherDoors h (Some c) (n + 1))))"
    by blast
  from alt show ?case
  proof
    assume "d = fst (attachFootCoords h r c door)"
    then show ?thesis
      using co attach_foot [of h r c door] attach_kept [of h r c door]
      by (simp add: collected_iff)
  next
    assume deeper: "d \<in> set (fst (snd (searchForWitherDoors h (Some c) (n + 1))))"
    have "k = 2 - (n + 1)" using Suc.hyps(2) by simp
    from Suc.hyps(1) [OF this deeper] show ?thesis .
  qed
qed

lemma new_door_simps:
  "door_x (new_door dx dz t opn) = dx"
  "door_z (new_door dx dz t opn) = dz"
  "door_type (new_door dx dz t opn) = t"
  "door_opened (new_door dx dz t opn) = opn"
  by (simp_all add: new_door_def)

lemma stone_closed: "no_open_side (fst (blockChecks (example_host rs cur drs world_stone) bx fy bz))"
  by (simp add: no_open_side_def blockChecks_def isBlockAir_def andAlso_def example_host_simps
      world_stone_def AirBlockID_def Let_def)

lemma star_walk:
  "fst (snd (searchForWitherDoors star_host (Some 0) 0)) =
     [(new_door 10 0 WITHER False)\<lparr>door_footX := Some 10, door_footY := Some 69, door_footZ := Some 0\<rparr>,
      (new_door 20 0 WITHER False)\<lparr>door_footX := Some 20, door_footY := Some 69, door_footZ := Some 0\<rparr>,
      (new_door 30 0 WITHER False)\<lparr>door_footX := Some 30, door_footY := Some 69, door_footZ := Some 0\<rparr>]"
  by (simp add: search_walk spec_walk_def spec_second_level_def children_of_def collected_def
      truthy_name_def star_host_def example_host_simps star_rooms_def star_doors_def named_room_def
      attach_fallback stone_closed new_door_simps)

lemma loop_walk:
  "fst (snd (searchForWitherDoors loop_host (Some 0) 0)) =
     [(new_door 5 5 WITHER False)\<lparr>door_footX := Some 5, door_footY := Some 69, door_footZ := Some 5\<rparr>,
      (new_door 5 5 WITHER False)\<lparr>door_footX := Some 5, door_footY := Some 69, door_footZ := Some 5\<rparr>]"
  by (simp add: search_walk spec_walk_def spec_second_level_def children_of_def collected_def
      truthy_name_def loop_host_def example_host_simps loop_rooms_def loop_doors_def named_room_def
      attach_fallback stone_closed new_door_simps)

lemma dungeon_second_door_closed:
  "no_open_side (fst (blockChecks (example_host rs cur drs (world_air_at [(9, -2)])) 0 fy 30))"
  by (simp add: no_open_side_def blockChecks_def isBlockAir_def andAlso_def example_host_simps
      world_air_at_def AirBlockID_def Let_def)

lemma dungeon_first_door_attach:
  "attachFootCoords (example_host rs cur drs (world_air_at [(9, -2)])) r c (new_door 7 (-2) t opn) =
     ((new_door 7 (-2) t opn)\<lparr>door_footX := Some 10, door_footY := Some 69, door_footZ := Some (-4)\<rparr>, [])"
  by (simp add: attachFootCoords_def prober_valid blockChecks_def isBlockAir_def andAlso_def
      candidates_def example_host_simps world_air_at_def AirBlockID_def FLOOR_Y_def Math_floor_def
      new_door_def Let_def)

lemma dungeon_second_door_attach:
  "attachFootCoords (example_host rs cur drs (world_air_at [(9, -2)])) r c (new_door 0 30 t opn) =
     ((new_door 0 30 t opn)\<lparr>door_footX := Some 0, door_footY := Some 69, door_footZ := Some 30\<rparr>,
      [ConsoleWarn_fallback (room_name (rs r)) (room_name (rs c)) 0 30])"
proof -
  have "no_open_side (fst (blockChecks (example_host rs cur drs (world_air_at [(9, -2)]))
          (Math_floor (door_x (new_door 0 30 t opn))) FLOOR_Y (Math_floor (door_z (new_door 0 30 t opn)))))"
    using dungeon_second_door_closed [of rs cur drs FLOOR_Y]
    by (simp add: new_door_def Math_floor_def)
  from attach_fallback [OF this, of r c] show ?thesis
    by (simp add: new_door_def Math_floor_def example_host_simps
        blockChecks_def isBlockAir_def andAlso_def world_air_at_def AirBlockID_def Let_def)
qed

lemma dungeon_walk:
  "fst (snd (searchForWitherDoors dungeon_host (Some 0) 0)) =
     [(new_door 7 (-2) WITHER False)\<lparr>door_footX := Some 10, door_footY := Some 69, door_footZ := Some (-4)\<rparr>,
      (new_door 0 30 WITHER False)\<lparr>door_footX := Some 0, door_footY := Some 69, door_footZ := Some 30\<rparr>]"
  by (simp add: search_walk spec_walk_def spec_second_level_def children_of_def collected_def
      truthy_name_def dungeon_host_def example_host_simps dungeon_rooms_def dungeon_doors_def
      named_room_def dungeon_first_door_attach dungeon_second_door_attach new_door_simps)
  
lemma dungeon_opened_walk:
  "fst (snd (searchForWitherDoors dungeon_host_opened (Some 0) 0)) = []"
  by (simp add: search_walk spec_walk_def spec_second_level_def children_of_def collected_def
      truthy_name_def dungeon_host_opened_def example_host_simps dungeon_rooms_def dungeon_doors_def
      dungeon_doors_opened_def named_room_def new_door_simps)

lemma visit_member:
  assumes "n < 2" and "child \<in> set (children_of h r)" and "collected h r child = Some (c, d)"
  shows "fst (attachFootCoords h r c d) \<in> set (fst (snd (searchForWitherDoors h (Some r) n)))"
    and "set (snd (attachFootCoords h r c d)) \<subseteq> set (snd (snd (searchForWitherDoors h (Some r) n)))"
proof -
  have a: "fst (attachFootCoords h r c d) \<in> set (fst (snd (visit h r n child)))"
    using assms(3) by (simp add: visit_def)
  have b: "set (snd (attachFootCoords h r c d)) \<subseteq> set (snd (snd (visit h r n child)))"
    using assms(3) by (simp add: visit_def)
  show "fst (attachFootCoords h r c d) \<in> set (fst (snd (searchForWitherDoors h (Some r) n)))"
    using assms(1,2) a by (auto simp: search_doors)
  show "set (snd (attachFootCoords h r c d)) \<subseteq> set (snd (snd (searchForWitherDoors h (Some r) n)))"
    using assms(1,2) b by (auto simp: search_logs)
qed

text \<open>
  C3: when no direction passes the clearance check the prober returns no candidate (it
  returns; nothing is thrown). The traversal then attaches the door's own center (x, z) at
  the floor elevation 69 and logs a warning that carries the names of the two rooms. For
  any door the loop accepts at a room visited with a found-count below 2, that door with
  the fallback coordinates is in the output and the warning is in the log.
\<close>

theorem C3_no_open_side_fallback:
  "(no_open_side (fst (blockChecks h (Math_floor x) fy (Math_floor z))) \<longrightarrow>
      fst (calculateFootCoordsWithBlockCheck h (Some \<lparr>dc_x = Some x, dc_z = Some z\<rparr>) fy pp) = None) \<and>
   (no_open_side (fst (blockChecks h (Math_floor (door_x d)) FLOOR_Y (Math_floor (door_z d)))) \<longrightarrow>
      fst (attachFootCoords h r c d) =
        d\<lparr>door_footX := Some (door_x d), door_footY := Some 69, door_footZ := Some (door_z d)\<rparr> \<and>
      ConsoleWarn_fallback (room_name (rooms h r)) (room_name (rooms h c)) (door_x d) (door_z d)
        \<in> set (snd (attachFootCoords h r c d)) \<and>
      (n < 2 \<and> child \<in> set (children_of h r) \<and> collected h r child = Some (c, d) \<longrightarrow>
         d\<lparr>door_footX := Some (door_x d), door_footY := Some 69, door_footZ := Some (door_z d)\<rparr>
           \<in> set (fst (snd (searchForWitherDoors h (Some r) n))) \<and>
         ConsoleWarn_fallback (room_name (rooms h r)) (room_name (rooms h c)) (door_x d) (door_z d)
           \<in> set (snd (snd (searchForWitherDoors h (Some r) n)))))"
proof -
  have prober: "no_open_side (fst (blockChecks h (Math_floor x) fy (Math_floor z))) \<longrightarrow>
      fst (calculateFootCoordsWithBlockCheck h (Some \<lparr>dc_x = Some x, dc_z = Some z\<rparr>) fy pp) = None"
    by (simp add: prober_none)
  have walk: "fst (attachFootCoords h r c d) =
        d\<lparr>door_footX := Some (door_x d), door_footY := Some 69, door_footZ := Some (door_z d)\<rparr> \<and>
      ConsoleWarn_fallback (room_name (rooms h r)) (room_name (rooms h c)) (door_x d) (door_z d)
        \<in> set (snd (attachFootCoords h r c d)) \<and>
      (n < 2 \<and> child \<in> set (children_of h r) \<and> collected h r child = Some (c, d) \<longrightarrow>
         d\<lparr>door_footX := Some (door_x d), door_footY := Some 69, door_footZ := Some (door_z d)\<rparr>
           \<in> set (fst (snd (searchForWitherDoors h (Some r) n))) \<and>
         ConsoleWarn_fallback (room_name (rooms h r)) (room_name (rooms h c)) (door_x d) (door_z d)
           \<in> set (snd (snd (searchForWitherDoors h (Some r) n))))"
    if closed: "no_open_side (fst (blockChecks h (Math_floor (door_x d)) FLOOR_Y (Math_floor (door_z d))))"
  proof -
    note fb = attach_fallback [OF closed, of r c]
    have a: "fst (attachFootCoords h r c d) =
        d\<lparr>door_footX := Some (door_x d), door_footY := Some 69, door_footZ := Some (door_z d)\<rparr>"
      by (simp add: fb)
    have b: "ConsoleWarn_fallback (room_name (rooms h r)) (room_name (rooms h c)) (door_x d) (door_z d)
        \<in> set (snd (attachFootCoords h r c d))"
      by (simp add: fb)
    show ?thesis
      using a b visit_member [of n child h r c d] by auto
  qed
  show ?thesis
    using prober walk by blast
qed

theorem C3_no_open_side_fallback_witness:
  "no_open_side (fst (blockChecks dungeon_host (Math_floor 0) 69 (Math_floor 30))) \<and>
   fst (calculateFootCoordsWithBlockCheck dungeon_host (Some \<lparr>dc_x = Some 0, dc_z = Some 30\<rparr>) 69 None) = None \<and>
   (1::nat) < 2 \<and> Some 3 \<in> set (children_of dungeon_host 1) \<and>
   collected dungeon_host 1 (Some 3) = Some (3, new_door 0 30 WITHER False) \<and>
   \<lparr>door_x = 0, door_z = 30, door_type = WITHER, door_opened = False,
      door_footX = Some 0, door_footY = Some 69, door_footZ = Some 30\<rparr>
     \<in> set (fst (snd (searchForWitherDoors dungeon_host (Some 1) 1))) \<and>
   ConsoleWarn_fallback (Some ''A'') (Some ''C'') 0 30
     \<in> set (snd (snd (searchForWitherDoors dungeon_host (Some 1) 1)))"
proof -
  have closed: "\<And>fy. no_open_side (fst (blockChecks dungeon_host 0 fy 30))"
    unfolding dungeon_host_def by (rule dungeon_second_door_closed)
  have ch: "Some 3 \<in> set (children_of dungeon_host 1)"
    by (simp add: children_of_def dungeon_host_def example_host_simps dungeon_rooms_def named_room_def)
  have co: "collected dungeon_host 1 (Some 3) = Some (3, new_door 0 30 WITHER False)"
    by (simp add: collected_def truthy_name_def dungeon_host_def example_host_simps dungeon_rooms_def
        dungeon_doors_def named_room_def new_door_def)
  have names: "room_name (rooms dungeon_host 1) = Some ''A''" "room_name (rooms dungeon_host 3) = Some ''C''"
    by (simp_all add: dungeon_host_def example_host_simps dungeon_rooms_def named_room_def)
  show ?thesis
    using closed ch co names
      C3_no_open_side_fallback [of dungeon_host 0 69 30 None "new_door 0 30 WITHER False" 1 3 1 "Some 3"]
    by (simp add: Math_floor_def FLOOR_Y_def new_door_def)
qed

text \<open>
  C4: a call entered with a found-count of 2 or more pushes nothing (and logs nothing). A
  call entered with a smaller count pushes, for every child whose door the loop accepts, that
  door followed by whatever the call on that child pushes, and every child is entered with
  the caller's count plus one, whatever its siblings found. From count 0 the pushes below a
  first-level door are therefore single doors of that child's children and nothing deeper:
  at most 2 doors along a path. The bound is not global (the hub with three spokes yields
  3 doors), and a door reachable twice is collected twice (the two rooms that list each
  other yield the same door two times).
\<close>

theorem C4_bound_is_per_path:
  "(2 \<le> n \<longrightarrow> searchForWitherDoors h room n = (True, [], [])) \<and>
   (n < 2 \<longrightarrow>
      fst (snd (searchForWitherDoors h (Some r) n)) =
        concat (map (\<lambda>child. case collected h r child of
                                None \<Rightarrow> []
                              | Some (c, door) \<Rightarrow>
                                  fst (attachFootCoords h r c door) #
                                  fst (snd (searchForWitherDoors h (Some c) (n + 1))))
                    (children_of h r))) \<and>
   fst (snd (searchForWitherDoors h (Some r) 0)) =
     concat (map (\<lambda>child. case collected h r child of
                             None \<Rightarrow> []
                           | Some (c, door) \<Rightarrow>
                               fst (attachFootCoords h r c door) #
                               concat (map (\<lambda>grandchild. case collected h c grandchild of
                                                             None \<Rightarrow> []
                                                           | Some (g, door2) \<Rightarrow> [fst (attachFootCoords h c g door2)])
                                           (children_of h c)))
                 (children_of h r)) \<and>
   length (fst (snd (searchForWitherDoors star_host (Some 0) 0))) = 3 \<and>
   \<not> distinct (fst (snd (searchForWitherDoors loop_host (Some 0) 0)))"
proof -
  have stop: "2 \<le> n \<longrightarrow> searchForWitherDoors h room n = (True, [], [])"
    by (simp add: search_stop)
  have v: "\<And>m child. fst (snd (visit h r m child)) =
      (case collected h r child of
         None \<Rightarrow> []
       | Some (c, door) \<Rightarrow>
           fst (attachFootCoords h r c door) # fst (snd (searchForWitherDoors h (Some c) (m + 1))))"
    by (simp add: visit_def split: option.splits)
  have step: "n < 2 \<longrightarrow>
      fst (snd (searchForWitherDoors h (Some r) n)) =
        concat (map (\<lambda>child. case collected h r child of
                                None \<Rightarrow> []
                              | Some (c, door) \<Rightarrow>
                                  fst (attachFootCoords h r c door) #
                                  fst (snd (searchForWitherDoors h (Some c) (n + 1))))
                    (children_of h r))"
    by (simp add: search_doors v)
  have two: "fst (snd (searchForWitherDoors h (Some r) 0)) =
     concat (map (\<lambda>child. case collected h r child of
                             None \<Rightarrow> []
                           | Some (c, door) \<Rightarrow>
                               fst (attachFootCoords h r c door) #
                               concat (map (\<lambda>grandchild. case collected h c grandchild of
                                                             None \<Rightarrow> []
                                                           | Some (g, door2) \<Rightarrow> [fst (attachFootCoords h c g door2)])
                                           (children_of h c)))
                 (children_of h r))"
    unfolding search_walk spec_walk_def spec_second_level_def ..
  have star: "length (fst (snd (searchForWitherDoors star_host (Some 0) 0))) = 3"
    by (simp add: star_walk)
  have loop: "\<not> distinct (fst (snd (searchForWitherDoors loop_host (Some 0) 0)))"
    by (simp add: loop_walk)
  show ?thesis
    using stop step two star loop by blast
qed

theorem C4_bound_is_per_path_witness:
  "(2::nat) \<le> 2 \<and> searchForWitherDoors dungeon_host (Some 3) 2 = (True, [], []) \<and>
   (1::nat) < 2 \<and>
   fst (snd (searchForWitherDoors dungeon_host (Some 1) 1)) =
     [\<lparr>door_x = 0, door_z = 30, door_type = WITHER, door_opened = False,
        door_footX = Some 0, door_footY = Some 69, door_footZ = Some 30\<rparr>]"
proof -
  have ch: "children_of dungeon_host (Suc 0) = [Some 3]"
    by (simp add: children_of_def dungeon_host_def example_host_simps dungeon_rooms_def named_room_def)
  have co: "collected dungeon_host (Suc 0) (Some 3) = Some (3, new_door 0 30 WITHER False)"
    by (simp add: collected_def truthy_name_def dungeon_host_def example_host_simps dungeon_rooms_def
        dungeon_doors_def named_room_def new_door_simps)
  have at: "fst (attachFootCoords dungeon_host (Suc 0) 3 (new_door 0 30 WITHER False)) =
      \<lparr>door_x = 0, door_z = 30, door_type = WITHER, door_opened = False,
        door_footX = Some 0, door_footY = Some 69, door_footZ = Some 30\<rparr>"
    unfolding dungeon_host_def dungeon_second_door_attach by (simp add: new_door_def)
  have stop: "searchForWitherDoors dungeon_host (Some 3) 2 = (True, [], [])"
    using C4_bound_is_per_path [of 2 dungeon_host "Some 3" 3] by simp
  have stop': "searchForWitherDoors dungeon_host (Some 3) (Suc (Suc 0)) = (True, [], [])"
    using C4_bound_is_per_path [of "Suc (Suc 0)" dungeon_host "Some 3" 3] by simp
  have "fst (snd (searchForWitherDoors dungeon_host (Some (Suc 0)) (Suc 0))) =
      [fst (attachFootCoords dungeon_host (Suc 0) 3 (new_door 0 30 WITHER False))]"
    using C4_bound_is_per_path [of "Suc 0" dungeon_host "Some 3" "Suc 0"]
    by (simp add: ch co stop')
  then show ?thesis
    using stop by (simp add: at)
qed

section \<open>Properties of the publisher\<close>

lemma tick_active:
  assumes "shouldBeActive h" and "getCurrentRoom h = Some r"
  shows "tick h st =
           (fst (autoGoto (filteredDoors h)
                   (fst (publishDoors (filteredDoors h)
                           (st\<lparr>doorsToRender := fst (snd (searchForWitherDoors h (Some r) 0))\<rparr>)))),
            snd (publishDoors (filteredDoors h)
                   (st\<lparr>doorsToRender := fst (snd (searchForWitherDoors h (Some r) 0))\<rparr>)) @
            fst (snd (autoGoto (filteredDoors h)
                   (fst (publishDoors (filteredDoors h)
                           (st\<lparr>doorsToRender := fst (snd (searchForWitherDoors h (Some r) 0))\<rparr>))))),
            snd (snd (searchForWitherDoors h (Some r) 0)),
            snd (snd (autoGoto (filteredDoors h)
                   (fst (publishDoors (filteredDoors h)
                           (st\<lparr>doorsToRender := fst (snd (searchForWitherDoors h (Some r) 0))\<rparr>))))))"
  using assms by (simp add: tick_def filteredDoors_def Let_def)

lemma tick_inactive:
  "\<not> shouldBeActive h \<or> getCurrentRoom h = None \<Longrightarrow> tick h st = (resetTracked st, [], [], None)"
  by (auto simp: tick_def)

lemma publish_keeps_doors: "doorsToRender (fst (publishDoors dd st)) = doorsToRender st"
  by (simp add: publishDoors_def Let_def)

lemma autoGoto_keeps_doors: "doorsToRender (fst (autoGoto dd st)) = doorsToRender st"
  by (simp add: autoGoto_def Let_def split: option.splits global.splits)

lemma tick_active_doors:
  assumes "shouldBeActive h" and "getCurrentRoom h = Some r"
  shows "doorsToRender (fst (tick h st)) = fst (snd (searchForWitherDoors h (Some r) 0))"
  by (simp add: tick_active [OF assms] publish_keeps_doors autoGoto_keeps_doors)

text \<open>
  C5: the doors pushed from a start room are, in this order, the accepted doors of the
  start room's children in children-array order, each followed at once by the accepted
  doors of that child's own children (the depth-first order of the walk; nothing re-sorts
  the list). The loop accepts the door of an array entry exactly when the entry is a named
  room, the accessor returns a door for it, the door's type is WITHER or BLOOD and the door
  is not opened. Every door in the output has such a type and is not opened, and an active
  tick stores exactly this list.
\<close>

theorem C5_accepted_doors_in_walk_order:
  "fst (snd (searchForWitherDoors h (Some r) 0)) = spec_walk h r \<and>
   (collected h r child = Some (c, d) \<longleftrightarrow>
      child = Some c \<and> truthy_name (room_name (rooms h c)) \<and> getDoorBetweenRooms h r c = Some d \<and>
      door_type d \<in> {WITHER, BLOOD} \<and> \<not> door_opened d) \<and>
   (\<forall>e\<in>set (fst (snd (searchForWitherDoors h room n))). door_type e \<in> {WITHER, BLOOD} \<and> \<not> door_opened e) \<and>
   (shouldBeActive h \<and> getCurrentRoom h = Some r \<longrightarrow> doorsToRender (fst (tick h st)) = spec_walk h r)"
proof -
  have a: "fst (snd (searchForWitherDoors h (Some r) 0)) = spec_walk h r"
    by (rule search_walk)
  have b: "\<forall>e\<in>set (fst (snd (searchForWitherDoors h room n))). door_type e \<in> {WITHER, BLOOD} \<and> \<not> door_opened e"
    using search_doors_props [of _ h room n] by blast
  have c: "shouldBeActive h \<and> getCurrentRoom h = Some r \<longrightarrow> doorsToRender (fst (tick h st)) = spec_walk h r"
    using tick_active_doors [of h r st] a by simp
  show ?thesis
    using a b c collected_iff [of h r child c d] by blast
qed

theorem C5_accepted_doors_in_walk_order_witness:
  "shouldBeActive dungeon_host \<and> getCurrentRoom dungeon_host = Some 0 \<and>
   collected dungeon_host 0 (Some 2) = None \<and>
   getDoorBetweenRooms dungeon_host 0 2 = Some (new_door 20 0 BLOOD True) \<and>
   doorsToRender (fst (tick dungeon_host initial_state)) =
     [\<lparr>door_x = 7, door_z = -2, door_type = WITHER, door_opened = False,
        door_footX = Some 10, door_footY = Some 69, door_footZ = Some (-4)\<rparr>,
      \<lparr>door_x = 0, door_z = 30, door_type = WITHER, door_opened = False,
        door_footX = Some 0, door_footY = Some 69, door_footZ = Some 30\<rparr>]"
proof -
  have act: "shouldBeActive dungeon_host" "getCurrentRoom dungeon_host = Some 0"
    by (simp_all add: shouldBeActive_def dungeon_host_def example_host_simps)
  have skip: "collected dungeon_host 0 (Some 2) = None"
    "getDoorBetweenRooms dungeon_host 0 2 = Some (new_door 20 0 BLOOD True)"
    by (simp_all add: collected_def truthy_name_def dungeon_host_def example_host_simps
        dungeon_rooms_def dungeon_doors_def named_room_def new_door_simps)
  note inst = C5_accepted_doors_in_walk_order [of dungeon_host 0 "Some 2" 2 "new_door 20 0 BLOOD True" "Some 0" 0 initial_state]
  have w: "spec_walk dungeon_host 0 =
     [\<lparr>door_x = 7, door_z = -2, door_type = WITHER, door_opened = False,
        door_footX = Some 10, door_footY = Some 69, door_footZ = Some (-4)\<rparr>,
      \<lparr>door_x = 0, door_z = 30, door_type = WITHER, door_opened = False,
        door_footX = Some 0, door_footY = Some 69, door_footZ = Some 30\<rparr>]"
    using inst dungeon_walk by (simp add: new_door_def)
  show ?thesis
    using inst act skip w by simp
qed

lemma publish_msgs:
  "snd (publishDoors dd st) =
     (if dd \<noteq> [] then (if lastSentDoorsJson st \<noteq> Some (DoorLocations dd) then [DoorLocations dd] else [])
      else if lastSentDoorsJson st \<noteq> None \<and> lastSentDoorsJson st \<noteq> Some (DoorLocations [])
           then [DoorLocations []] else [])"
  by (auto simp: publishDoors_def Let_def)

lemma publish_snapshot:
  "lastSentDoorsJson (fst (publishDoors dd st)) =
     (if dd \<noteq> [] then Some (DoorLocations dd)
      else if lastSentDoorsJson st = None then None else Some (DoorLocations []))"
  by (auto simp: publishDoors_def Let_def)

lemma publish_keeps_goto:
  "lastSentGotoCoords (fst (publishDoors dd st)) = lastSentGotoCoords st \<and>
   isAutoGotoEnabled (fst (publishDoors dd st)) = isAutoGotoEnabled st"
  by (simp add: publishDoors_def Let_def)

lemma autoGoto_keeps_snapshot:
  "lastSentDoorsJson (fst (autoGoto dd st)) = lastSentDoorsJson st \<and>
   isAutoGotoEnabled (fst (autoGoto dd st)) = isAutoGotoEnabled st"
  by (simp add: autoGoto_def Let_def split: option.splits global.splits)

lemma gotoCoords_differs:
  "(goto_x l \<noteq> goto_x c \<or> goto_y l \<noteq> goto_y c \<or> goto_z l \<noteq> goto_z c) \<longleftrightarrow> l \<noteq> (c :: gotoCoords)"
  by (cases l, cases c) auto

lemma shouldSendGoto_iff:
  "(case lastSent of
      None \<Rightarrow> True
    | Some l \<Rightarrow> goto_x l \<noteq> goto_x \<lparr>goto_x = gx, goto_y = gy, goto_z = gz\<rparr> \<or>
                goto_y l \<noteq> goto_y \<lparr>goto_x = gx, goto_y = gy, goto_z = gz\<rparr> \<or>
                goto_z l \<noteq> goto_z \<lparr>goto_x = gx, goto_y = gy, goto_z = gz\<rparr>)
   \<longleftrightarrow> lastSent \<noteq> Some \<lparr>goto_x = gx, goto_y = gy, goto_z = gz\<rparr>"
  using gotoCoords_differs [of _ "\<lparr>goto_x = gx, goto_y = gy, goto_z = gz\<rparr>"]
  by (cases lastSent) simp_all

lemma autoGoto_cons:
  "autoGoto (t # ts) st =
     (case isAutoGotoEnabled st of
        Undeclared \<Rightarrow> (st, [], Some (ReferenceError ''isAutoGotoEnabled''))
      | Declared enabled \<Rightarrow>
          if enabled then
            (case lastSentGotoCoords st of
               Undeclared \<Rightarrow> (st, [], Some (ReferenceError ''lastSentGotoCoords''))
             | Declared lastSent \<Rightarrow>
                 if lastSent \<noteq> Some \<lparr>goto_x = dd_footX t, goto_y = dd_footY t, goto_z = dd_footZ t\<rparr>
                 then (st\<lparr>lastSentGotoCoords :=
                            Declared (Some \<lparr>goto_x = dd_footX t, goto_y = dd_footY t, goto_z = dd_footZ t\<rparr>)\<rparr>,
                       [Action_GOTO \<lparr>goto_x = dd_footX t, goto_y = dd_footY t, goto_z = dd_footZ t\<rparr>], None)
                 else (st, [], None))
          else (st, [], None))"
  by (simp add: autoGoto_def Let_def shouldSendGoto_iff split: global.splits)

lemma autoGoto_nil:
  "autoGoto [] st =
     (case isAutoGotoEnabled st of
        Undeclared \<Rightarrow> (st, [], Some (ReferenceError ''isAutoGotoEnabled''))
      | Declared enabled \<Rightarrow>
          if enabled then
            (case lastSentGotoCoords st of
               Undeclared \<Rightarrow> (st, [], Some (ReferenceError ''lastSentGotoCoords''))
             | Declared lastSent \<Rightarrow>
                 (if lastSent \<noteq> None then st\<lparr>lastSentGotoCoords := Declared None\<rparr> else st, [], None))
          else (st, [], None))"
  by (simp add: autoGoto_def Let_def split: global.splits)

lemma autoGoto_msgs:
  "fst (snd (autoGoto dd st)) =
     (if isAutoGotoEnabled st = Declared True \<and> dd \<noteq> [] \<and> lastSentGotoCoords st \<noteq> Undeclared \<and>
         lastSentGotoCoords st \<noteq>
           Declared (Some \<lparr>goto_x = dd_footX (hd dd), goto_y = dd_footY (hd dd), goto_z = dd_footZ (hd dd)\<rparr>)
      then [Action_GOTO \<lparr>goto_x = dd_footX (hd dd), goto_y = dd_footY (hd dd), goto_z = dd_footZ (hd dd)\<rparr>]
      else [])"
proof (cases dd)
  case Nil
  then show ?thesis by (simp add: autoGoto_nil split: global.splits)
next
  case (Cons t ts)
  then show ?thesis by (simp add: autoGoto_cons split: global.splits)
qed

lemma autoGoto_last:
  "lastSentGotoCoords (fst (autoGoto dd st)) =
     (if isAutoGotoEnabled st = Declared True \<and> lastSentGotoCoords st \<noteq> Undeclared
      then (if dd \<noteq> []
            then Declared (Some \<lparr>goto_x = dd_footX (hd dd), goto_y = dd_footY (hd dd), goto_z = dd_footZ (hd dd)\<rparr>)
            else Declared None)
      else lastSentGotoCoords st)"
proof (cases dd)
  case Nil
  then show ?thesis by (auto simp: autoGoto_nil split: global.splits)
next
  case (Cons t ts)
  then show ?thesis by (auto simp: autoGoto_cons split: global.splits)
qed

lemma autoGoto_error:
  "snd (snd (autoGoto dd st)) =
     (if isAutoGotoEnabled st = Undeclared then Some (ReferenceError ''isAutoGotoEnabled'')
      else if isAutoGotoEnabled st = Declared True \<and> lastSentGotoCoords st = Undeclared
           then Some (ReferenceError ''lastSentGotoCoords'')
           else None)"
proof (cases dd)
  case Nil
  then show ?thesis by (simp add: autoGoto_nil split: global.splits)
next
  case (Cons t ts)
  then show ?thesis by (simp add: autoGoto_cons split: global.splits)
qed

lemma tick_active_msgs:
  assumes "shouldBeActive h" and "getCurrentRoom h = Some r"
  shows "fst (snd (tick h st)) =
           (if filteredDoors h \<noteq> []
            then (if lastSentDoorsJson st \<noteq> Some (DoorLocations (filteredDoors h))
                  then [DoorLocations (filteredDoors h)] else [])
            else if lastSentDoorsJson st \<noteq> None \<and> lastSentDoorsJson st \<noteq> Some (DoorLocations [])
                 then [DoorLocations []] else []) @
           (if isAutoGotoEnabled st = Declared True \<and> filteredDoors h \<noteq> [] \<and>
               lastSentGotoCoords st \<noteq> Undeclared \<and>
               lastSentGotoCoords st \<noteq>
                 Declared (Some \<lparr>goto_x = dd_footX (hd (filteredDoors h)), goto_y = dd_footY (hd (filteredDoors h)),
                       goto_z = dd_footZ (hd (filteredDoors h))\<rparr>)
            then [Action_GOTO \<lparr>goto_x = dd_footX (hd (filteredDoors h)), goto_y = dd_footY (hd (filteredDoors h)),
                               goto_z = dd_footZ (hd (filteredDoors h))\<rparr>]
            else [])"
  by (simp add: tick_active [OF assms] publish_msgs autoGoto_msgs publish_keeps_goto)

lemma tick_active_state:
  assumes "shouldBeActive h" and "getCurrentRoom h = Some r"
  shows "lastSentDoorsJson (fst (tick h st)) =
           (if filteredDoors h \<noteq> [] then Some (DoorLocations (filteredDoors h))
            else if lastSentDoorsJson st = None then None else Some (DoorLocations []))"
    and "lastSentGotoCoords (fst (tick h st)) =
           (if isAutoGotoEnabled st = Declared True \<and> lastSentGotoCoords st \<noteq> Undeclared
            then (if filteredDoors h \<noteq> []
                  then Declared (Some \<lparr>goto_x = dd_footX (hd (filteredDoors h)),
                                       goto_y = dd_footY (hd (filteredDoors h)),
                                       goto_z = dd_footZ (hd (filteredDoors h))\<rparr>)
                  else Declared None)
            else lastSentGotoCoords st)"
    and "isAutoGotoEnabled (fst (tick h st)) = isAutoGotoEnabled st"
  by (simp_all add: tick_active [OF assms] publish_snapshot autoGoto_last publish_keeps_goto
      autoGoto_keeps_snapshot)

lemma tick_active_error:
  assumes "shouldBeActive h" and "getCurrentRoom h = Some r"
  shows "snd (snd (snd (tick h st))) =
     (if isAutoGotoEnabled st = Undeclared then Some (ReferenceError ''isAutoGotoEnabled'')
      else if isAutoGotoEnabled st = Declared True \<and> lastSentGotoCoords st = Undeclared
           then Some (ReferenceError ''lastSentGotoCoords'')
           else None)"
  by (simp add: tick_active [OF assms] autoGoto_error publish_keeps_goto)

lemma tick_inactive_state:
  assumes "\<not> shouldBeActive h \<or> getCurrentRoom h = None"
  shows "tick h st =
           (st\<lparr>doorsToRender := [], lastSentDoorsJson := None, lastSentGotoCoords := Declared None\<rparr>,
            [], [], None)"
proof -
  have "resetTracked st =
          st\<lparr>doorsToRender := [], lastSentDoorsJson := None, lastSentGotoCoords := Declared None\<rparr>"
    by (cases st) (auto simp: resetTracked_def Let_def)
  then show ?thesis using tick_inactive [OF assms] by simp
qed

lemma filteredDoors_all:
  "doorsDataOf h (fst (snd (searchForWitherDoors h room n))) =
     map (toDoorData h) (fst (snd (searchForWitherDoors h room n)))"
proof -
  have "\<forall>d\<in>set (map (toDoorData h) (fst (snd (searchForWitherDoors h room n)))).
          dd_footX d \<noteq> None \<and> dd_footZ d \<noteq> None"
    using search_doors_props [of _ h room n] by (auto simp: toDoorData_def)
  then show ?thesis
    unfolding doorsDataOf_def by (simp only: filter_True)
qed

lemma example_active:
  "shouldBeActive (example_host rs cur drs w)"
  by (simp add: shouldBeActive_def example_host_simps)

lemma lone_filtered: "filteredDoors lone_host = []"
  by (simp add: filteredDoors_def lone_host_def example_host_simps search_walk spec_walk_def
      children_of_def no_rooms_def named_room_def doorsDataOf_def)

lemma dungeon_filtered:
  "filteredDoors dungeon_host =
     [\<lparr>dd_x = 7, dd_z = -2, dd_type = ''WITHER'', dd_opened = False,
        dd_footX = Some 10, dd_footY = Some 69, dd_footZ = Some (-4)\<rparr>,
      \<lparr>dd_x = 0, dd_z = 30, dd_type = ''WITHER'', dd_opened = False,
        dd_footX = Some 0, dd_footY = Some 69, dd_footZ = Some 30\<rparr>]"
proof -
  have "getCurrentRoom dungeon_host = Some 0" "DoorTypes_label dungeon_host = type_label"
    by (simp_all add: dungeon_host_def example_host_simps)
  then show ?thesis
    by (simp add: filteredDoors_def dungeon_walk doorsDataOf_def toDoorData_def new_door_def
        type_label_def)
qed

lemma dungeon_opened_filtered: "filteredDoors dungeon_host_opened = []"
proof -
  have "getCurrentRoom dungeon_host_opened = Some 0"
    by (simp add: dungeon_host_opened_def example_host_simps)
  then show ?thesis
    by (simp add: filteredDoors_def dungeon_opened_walk doorsDataOf_def)
qed

lemma example_hosts_active:
  "shouldBeActive lone_host" "getCurrentRoom lone_host = Some 0"
  "shouldBeActive dungeon_host" "getCurrentRoom dungeon_host = Some 0"
  "shouldBeActive dungeon_host_opened" "getCurrentRoom dungeon_host_opened = Some 0"
  by (simp_all add: lone_host_def dungeon_host_def dungeon_host_opened_def example_active
      example_host_simps)

lemma initial_state_simps:
  "doorsToRender initial_state = []"
  "lastSentDoorsJson initial_state = None"
  "isAutoGotoEnabled initial_state = Undeclared"
  "lastSentGotoCoords initial_state = Undeclared"
  by (simp_all add: initial_state_def)

text \<open>
  C6, as stated, fails: the first of two successive invocations need not emit. In the lone
  entrance room the filtered door sequence is empty at both ticks and, starting from the
  freshly loaded module, neither tick emits a door-locations message. In the small dungeon
  the second and the third tick see the same non-empty sequence and neither of them emits.
\<close>

theorem C6_first_tick_silent_counterexample:
  "filteredDoors lone_host = [] \<and>
   filter is_doorLocations
     (fst (snd (tick lone_host initial_state)) @
      fst (snd (tick lone_host (fst (tick lone_host initial_state))))) = [] \<and>
   filteredDoors dungeon_host \<noteq> [] \<and>
   filter is_doorLocations
     (fst (snd (tick dungeon_host (fst (tick dungeon_host initial_state)))) @
      fst (snd (tick dungeon_host (fst (tick dungeon_host (fst (tick dungeon_host initial_state))))))) = []"
proof -
  note a = example_hosts_active
  have l1: "lastSentDoorsJson (fst (tick lone_host initial_state)) = None"
    by (simp add: tick_active_state(1) [OF a(1,2)] lone_filtered initial_state_simps)
  have d1: "lastSentDoorsJson (fst (tick dungeon_host initial_state)) = Some (DoorLocations (filteredDoors dungeon_host))"
    by (simp add: tick_active_state(1) [OF a(3,4)] dungeon_filtered)
  have d2: "lastSentDoorsJson (fst (tick dungeon_host (fst (tick dungeon_host initial_state))))
              = Some (DoorLocations (filteredDoors dungeon_host))"
    by (simp add: tick_active_state(1) [OF a(3,4)] dungeon_filtered)
  have ne: "filteredDoors dungeon_host \<noteq> []"
    by (simp add: dungeon_filtered)
  show ?thesis
    using ne
    by (simp add: tick_active_msgs [OF a(1,2)] tick_active_msgs [OF a(3,4)] lone_filtered l1 d1 d2
        initial_state_simps is_doorLocations_def)
qed

text \<open>
  C6 (amended): two successive ticks, both active with a current room, that compute the same
  filtered door sequence emit the door-locations message at most once. The second tick
  emits none. The first tick emits exactly when its payload is new: for a non-empty sequence
  when the serialization differs from the snapshot held before, for an empty sequence when a
  snapshot other than the empty list is held. After the first tick the snapshot is the
  serialization of the sequence, or still unset when the sequence is empty and nothing was
  held.
\<close>

theorem C6_second_publish_is_silent:
  assumes "shouldBeActive h1" and "getCurrentRoom h1 = Some r1"
    and "shouldBeActive h2" and "getCurrentRoom h2 = Some r2"
    and "filteredDoors h2 = filteredDoors h1"
  shows "filter is_doorLocations (fst (snd (tick h2 (fst (tick h1 st))))) = [] \<and>
         filter is_doorLocations (fst (snd (tick h1 st))) =
           (if filteredDoors h1 \<noteq> []
            then (if lastSentDoorsJson st \<noteq> Some (DoorLocations (filteredDoors h1))
                  then [DoorLocations (filteredDoors h1)] else [])
            else if lastSentDoorsJson st \<noteq> None \<and> lastSentDoorsJson st \<noteq> Some (DoorLocations [])
                 then [DoorLocations []] else []) \<and>
         lastSentDoorsJson (fst (tick h1 st)) =
           (if filteredDoors h1 \<noteq> [] then Some (DoorLocations (filteredDoors h1))
            else if lastSentDoorsJson st = None then None else Some (DoorLocations [])) \<and>
         length (filter is_doorLocations
                   (fst (snd (tick h1 st)) @ fst (snd (tick h2 (fst (tick h1 st)))))) \<le> 1"
proof -
  have second: "filter is_doorLocations (fst (snd (tick h2 (fst (tick h1 st))))) = []"
    by (simp add: tick_active_msgs [OF assms(3,4)] tick_active_state(1) [OF assms(1,2)] assms(5)
        is_doorLocations_def)
  have first: "filter is_doorLocations (fst (snd (tick h1 st))) =
           (if filteredDoors h1 \<noteq> []
            then (if lastSentDoorsJson st \<noteq> Some (DoorLocations (filteredDoors h1))
                  then [DoorLocations (filteredDoors h1)] else [])
            else if lastSentDoorsJson st \<noteq> None \<and> lastSentDoorsJson st \<noteq> Some (DoorLocations [])
                 then [DoorLocations []] else [])"
    by (simp add: tick_active_msgs [OF assms(1,2)] is_doorLocations_def)
  have snap: "lastSentDoorsJson (fst (tick h1 st)) =
           (if filteredDoors h1 \<noteq> [] then Some (DoorLocations (filteredDoors h1))
            else if lastSentDoorsJson st = None then None else Some (DoorLocations []))"
    by (rule tick_active_state(1) [OF assms(1,2)])
  have count: "length (filter is_doorLocations
                   (fst (snd (tick h1 st)) @ fst (snd (tick h2 (fst (tick h1 st)))))) \<le> 1"
    using second first by simp
  show ?thesis
    using second first snap count by blast
qed

theorem C6_second_publish_is_silent_witness:
  "shouldBeActive dungeon_host \<and> getCurrentRoom dungeon_host = Some 0 \<and>
   filteredDoors dungeon_host \<noteq> [] \<and>
   filter is_doorLocations (fst (snd (tick dungeon_host initial_state)))
     = [DoorLocations (filteredDoors dungeon_host)] \<and>
   lastSentDoorsJson (fst (tick dungeon_host initial_state)) = Some (DoorLocations (filteredDoors dungeon_host)) \<and>
   filter is_doorLocations (fst (snd (tick dungeon_host (fst (tick dungeon_host initial_state))))) = []"
  using C6_second_publish_is_silent [OF example_hosts_active(3,4) example_hosts_active(3,4) refl, of initial_state]
    example_hosts_active(3,4)
  by (simp add: dungeon_filtered initial_state_simps)

lemma lastEmittedDoors_append:
  "lastEmittedDoors (out @ ms) =
     (case lastEmittedDoors ms of None \<Rightarrow> lastEmittedDoors out | Some m \<Rightarrow> Some m)"
  by (simp add: lastEmittedDoors_def split: list.splits)

lemma lastEmittedDoors_member: "lastEmittedDoors out = Some m \<Longrightarrow> m \<in> set out \<and> is_doorLocations m"
proof -
  assume a: "lastEmittedDoors out = Some m"
  then obtain ms where "rev (filter is_doorLocations out) = m # ms"
    by (cases "rev (filter is_doorLocations out)") (simp_all add: lastEmittedDoors_def)
  then have "set (filter is_doorLocations out) = set (m # ms)"
    by (metis set_rev)
  then have "m \<in> set (filter is_doorLocations out)"
    by simp
  then show ?thesis by simp
qed

lemma tick_emitted:
  "lastEmittedDoors (fst (snd (tick h st))) =
     (if shouldBeActive h \<and> getCurrentRoom h \<noteq> None
      then (if filteredDoors h \<noteq> []
            then (if lastSentDoorsJson st \<noteq> Some (DoorLocations (filteredDoors h))
                  then Some (DoorLocations (filteredDoors h)) else None)
            else if lastSentDoorsJson st \<noteq> None \<and> lastSentDoorsJson st \<noteq> Some (DoorLocations [])
                 then Some (DoorLocations []) else None)
      else None)"
proof (cases "shouldBeActive h \<and> getCurrentRoom h \<noteq> None")
  case True
  then obtain r where act: "shouldBeActive h" "getCurrentRoom h = Some r" by auto
  show ?thesis
    using act by (simp add: tick_active_msgs [OF act] lastEmittedDoors_def is_doorLocations_def)
next
  case False
  then have "\<not> shouldBeActive h \<or> getCurrentRoom h = None" by simp
  then have "fst (snd (tick h st)) = []" by (simp add: tick_inactive_state)
  then show ?thesis using False by (simp add: lastEmittedDoors_def)
qed

lemma tick_snapshot:
  "lastSentDoorsJson (fst (tick h st)) =
     (if shouldBeActive h \<and> getCurrentRoom h \<noteq> None
      then (if filteredDoors h \<noteq> [] then Some (DoorLocations (filteredDoors h))
            else if lastSentDoorsJson st = None then None else Some (DoorLocations []))
      else None)"
proof (cases "shouldBeActive h \<and> getCurrentRoom h \<noteq> None")
  case True
  then obtain r where act: "shouldBeActive h" "getCurrentRoom h = Some r" by auto
  show ?thesis
    using act by (simp add: tick_active_state(1) [OF act])
next
  case False
  then have "\<not> shouldBeActive h \<or> getCurrentRoom h = None" by simp
  then show ?thesis using False by (simp add: tick_inactive_state)
qed

lemma step_keeps_link:
  assumes link: "\<forall>m. lastSentDoorsJson (fst c) = Some m \<longrightarrow> lastEmittedDoors (snd c) = Some m"
  shows "\<forall>m. lastSentDoorsJson (fst (step c e)) = Some m \<longrightarrow> lastEmittedDoors (snd (step c e)) = Some m"
proof (cases e)
  case (Tick h)
  show ?thesis
    using link
    by (auto simp: Tick step_def lastEmittedDoors_append tick_emitted tick_snapshot split: if_splits)
next
  case Command_gotodoor
  show ?thesis
    using link
    by (auto simp: Command_gotodoor step_def gotodoor_def Let_def split: sum.splits global.splits if_splits)
next
  case WorldUnload
  show ?thesis
    by (simp add: WorldUnload step_def worldUnload_def)
qed

lemma run_snoc: "run (es @ [e]) = step (run es) e"
  by (simp add: run_def)

lemma run_link:
  "\<forall>m. lastSentDoorsJson (fst (run es)) = Some m \<longrightarrow> lastEmittedDoors (snd (run es)) = Some m"
proof (induction es rule: rev_induct)
  case Nil
  show ?case by (simp add: run_def initial_state_def)
next
  case (snoc e es)
  show ?case
    unfolding run_snoc by (rule step_keeps_link [OF snoc.IH])
qed

text \<open>
  C7: after any sequence of callbacks from the loaded module, a snapshot that is held is
  the door-locations text sent most recently. The next tick sends the empty-list message
  exactly when the feature is active, the current room resolves, the filtered door sequence
  is empty, and the snapshot is a non-empty door list: the list that the most recent
  door-locations message carried. When the feature is inactive (disabled, not in a dungeon,
  in the boss room) or no current room resolves, the tick, from any state, clears the door
  list and the snapshot (and sets the last-sent GOTO coordinates to null), sends nothing and
  ends without an error.
\<close>

theorem C7_empty_list_only_after_nonempty:
  "(DoorLocations [] \<in> set (fst (snd (tick h (fst (run es))))) \<longleftrightarrow>
      Config_witherDoorEsp h \<and> Dungeon_inDungeon h \<and> \<not> Dungeon_bossEntry h \<and>
      getCurrentRoom h \<noteq> None \<and> filteredDoors h = [] \<and>
      (\<exists>ds. ds \<noteq> [] \<and> lastSentDoorsJson (fst (run es)) = Some (DoorLocations ds) \<and>
            lastEmittedDoors (snd (run es)) = Some (DoorLocations ds) \<and>
            DoorLocations ds \<in> set (snd (run es)))) \<and>
   (\<forall>m. lastSentDoorsJson (fst (run es)) = Some m \<longrightarrow>
        lastEmittedDoors (snd (run es)) = Some m \<and> m \<in> set (snd (run es))) \<and>
   (\<not> Config_witherDoorEsp h \<or> \<not> Dungeon_inDungeon h \<or> Dungeon_bossEntry h \<or> getCurrentRoom h = None \<longrightarrow>
      tick h st =
        (st\<lparr>doorsToRender := [], lastSentDoorsJson := None, lastSentGotoCoords := Declared None\<rparr>,
         [], [], None))"
proof -
  let ?st = "fst (run es)" and ?out = "snd (run es)"
  have link: "\<forall>m. lastSentDoorsJson ?st = Some m \<longrightarrow> lastEmittedDoors ?out = Some m \<and> m \<in> set ?out"
    using run_link [of es] lastEmittedDoors_member [of ?out] by blast
  have inactive: "\<not> Config_witherDoorEsp h \<or> \<not> Dungeon_inDungeon h \<or> Dungeon_bossEntry h \<or> getCurrentRoom h = None \<longrightarrow>
      tick h st =
        (st\<lparr>doorsToRender := [], lastSentDoorsJson := None, lastSentGotoCoords := Declared None\<rparr>,
         [], [], None)"
    using tick_inactive_state [of h st] by (auto simp: shouldBeActive_def)
  have held: "lastSentDoorsJson ?st \<noteq> None \<and> lastSentDoorsJson ?st \<noteq> Some (DoorLocations []) \<longleftrightarrow>
      (\<exists>ds. ds \<noteq> [] \<and> lastSentDoorsJson ?st = Some (DoorLocations ds) \<and>
            lastEmittedDoors ?out = Some (DoorLocations ds) \<and> DoorLocations ds \<in> set ?out)"
  proof
    assume a: "lastSentDoorsJson ?st \<noteq> None \<and> lastSentDoorsJson ?st \<noteq> Some (DoorLocations [])"
    then obtain m where m: "lastSentDoorsJson ?st = Some m" by auto
    with link have e: "lastEmittedDoors ?out = Some m" "m \<in> set ?out" by auto
    from lastEmittedDoors_member [OF e(1)] obtain ds where "m = DoorLocations ds"
      by (cases m) (simp_all add: is_doorLocations_def)
    then show "\<exists>ds. ds \<noteq> [] \<and> lastSentDoorsJson ?st = Some (DoorLocations ds) \<and>
            lastEmittedDoors ?out = Some (DoorLocations ds) \<and> DoorLocations ds \<in> set ?out"
      using a m e by auto
  next
    assume "\<exists>ds. ds \<noteq> [] \<and> lastSentDoorsJson ?st = Some (DoorLocations ds) \<and>
            lastEmittedDoors ?out = Some (DoorLocations ds) \<and> DoorLocations ds \<in> set ?out"
    then show "lastSentDoorsJson ?st \<noteq> None \<and> lastSentDoorsJson ?st \<noteq> Some (DoorLocations [])"
      by auto
  qed
  have emits: "DoorLocations [] \<in> set (fst (snd (tick h ?st))) \<longleftrightarrow>
      Config_witherDoorEsp h \<and> Dungeon_inDungeon h \<and> \<not> Dungeon_bossEntry h \<and>
      getCurrentRoom h \<noteq> None \<and> filteredDoors h = [] \<and>
      lastSentDoorsJson ?st \<noteq> None \<and> lastSentDoorsJson ?st \<noteq> Some (DoorLocations [])"
  proof (cases "shouldBeActive h \<and> getCurrentRoom h \<noteq> None")
    case True
    then obtain r where act: "shouldBeActive h" "getCurrentRoom h = Some r" by auto
    have "DoorLocations [] \<in> set (fst (snd (tick h ?st))) \<longleftrightarrow>
            filteredDoors h = [] \<and> lastSentDoorsJson ?st \<noteq> None \<and>
            lastSentDoorsJson ?st \<noteq> Some (DoorLocations [])"
      by (simp add: tick_active_msgs [OF act])
    then show ?thesis
      using act by (auto simp: shouldBeActive_def)
  next
    case False
    then have off: "\<not> shouldBeActive h \<or> getCurrentRoom h = None" by simp
    then have "fst (snd (tick h ?st)) = []"
      by (simp add: tick_inactive_state)
    then show ?thesis
      using off by (auto simp: shouldBeActive_def)
  qed
  show ?thesis
    using emits held link inactive by blast
qed

theorem C7_empty_list_only_after_nonempty_witness:
  "filteredDoors dungeon_host \<noteq> [] \<and>
   snd (run [Tick dungeon_host]) = [DoorLocations (filteredDoors dungeon_host)] \<and>
   lastSentDoorsJson (fst (run [Tick dungeon_host])) = Some (DoorLocations (filteredDoors dungeon_host)) \<and>
   filteredDoors dungeon_host_opened = [] \<and>
   DoorLocations [] \<in> set (fst (snd (tick dungeon_host_opened (fst (run [Tick dungeon_host]))))) \<and>
   \<not> Config_witherDoorEsp (dungeon_host\<lparr>Config_witherDoorEsp := False\<rparr>) \<and>
   tick (dungeon_host\<lparr>Config_witherDoorEsp := False\<rparr>) (fst (run [Tick dungeon_host])) =
     (initial_state\<lparr>lastSentGotoCoords := Declared None\<rparr>, [], [], None)"
proof -
  let ?st = "fst (run [Tick dungeon_host])"
  note a = example_hosts_active
  have r: "run [Tick dungeon_host] =
      (fst (tick dungeon_host initial_state), fst (snd (tick dungeon_host initial_state)))"
    by (simp add: run_def step_def)
  have ne: "filteredDoors dungeon_host \<noteq> []"
    by (simp add: dungeon_filtered)
  have out: "snd (run [Tick dungeon_host]) = [DoorLocations (filteredDoors dungeon_host)]"
    using ne by (simp add: r tick_active_msgs [OF a(3,4)] initial_state_simps)
  have snap: "lastSentDoorsJson ?st = Some (DoorLocations (filteredDoors dungeon_host))"
    using ne by (simp add: r tick_active_state(1) [OF a(3,4)])
  have cfg: "Config_witherDoorEsp dungeon_host_opened" "Dungeon_inDungeon dungeon_host_opened"
    "\<not> Dungeon_bossEntry dungeon_host_opened"
    using a(5) by (simp_all add: shouldBeActive_def)
  note inst = C7_empty_list_only_after_nonempty [of dungeon_host_opened "[Tick dungeon_host]"]
  note inst_off = C7_empty_list_only_after_nonempty
      [of "dungeon_host\<lparr>Config_witherDoorEsp := False\<rparr>" "[Tick dungeon_host]" ?st]
  have emitted: "DoorLocations [] \<in> set (fst (snd (tick dungeon_host_opened ?st)))"
    using inst [THEN conjunct1] snap ne cfg a(6) out
    by (simp add: dungeon_opened_filtered lastEmittedDoors_def is_doorLocations_def)
  have st: "?st\<lparr>doorsToRender := [], lastSentDoorsJson := None, lastSentGotoCoords := Declared None\<rparr>
              = initial_state\<lparr>lastSentGotoCoords := Declared None\<rparr>"
    by (simp add: r initial_state_def tick_active_state(3) [OF a(3,4)])
  have off: "tick (dungeon_host\<lparr>Config_witherDoorEsp := False\<rparr>) ?st =
      (initial_state\<lparr>lastSentGotoCoords := Declared None\<rparr>, [], [], None)"
    using inst_off [THEN conjunct2, THEN conjunct2] st by simp
  show ?thesis
    using ne out snap emitted off by (simp add: dungeon_opened_filtered)
qed

lemma targetCoords_hd:
  "filteredDoors h \<noteq> [] \<Longrightarrow>
     \<lparr>goto_x = dd_footX (hd (filteredDoors h)), goto_y = dd_footY (hd (filteredDoors h)),
      goto_z = dd_footZ (hd (filteredDoors h))\<rparr> = targetCoords h"
  by (simp add: targetCoords_def hd_conv_nth)

lemma armed_state_simps:
  "doorsToRender armed_state = []"
  "lastSentDoorsJson armed_state = None"
  "isAutoGotoEnabled armed_state = Declared True"
  "lastSentGotoCoords armed_state = Declared None"
  by (simp_all add: armed_state_def)

lemma armed_state_reached: "gotodoor (worldUnload initial_state) = Inr armed_state"
  by (simp add: gotodoor_def worldUnload_def initial_state_def armed_state_def Let_def)

lemma gotodoor_when_declared:
  "isAutoGotoEnabled st = Declared b \<Longrightarrow>
     gotodoor st = Inr (st\<lparr>isAutoGotoEnabled := Declared (\<not> b), lastSentGotoCoords := Declared None\<rparr>)"
  by (simp add: gotodoor_def Let_def)

lemma goto_when_declared:
  assumes "shouldBeActive h" and "getCurrentRoom h = Some r"
    and "isAutoGotoEnabled st = Declared True" and "lastSentGotoCoords st = Declared prev"
  shows "filter is_action (fst (snd (tick h st))) =
           (if filteredDoors h \<noteq> [] \<and> prev \<noteq> Some (targetCoords h)
            then [Action_GOTO (targetCoords h)] else [])"
    and "lastSentGotoCoords (fst (tick h st)) =
           Declared (if filteredDoors h \<noteq> [] then Some (targetCoords h) else None)"
    and "snd (snd (snd (tick h st))) = None"
proof -
  show "filter is_action (fst (snd (tick h st))) =
           (if filteredDoors h \<noteq> [] \<and> prev \<noteq> Some (targetCoords h)
            then [Action_GOTO (targetCoords h)] else [])"
  proof (cases "filteredDoors h = []")
    case True
    then show ?thesis
      by (simp add: tick_active_msgs [OF assms(1,2)] is_action_def)
  next
    case False
    then show ?thesis
      using targetCoords_hd [OF False] assms(3,4)
      by (simp add: tick_active_msgs [OF assms(1,2)] is_action_def)
  qed
  show "lastSentGotoCoords (fst (tick h st)) =
           Declared (if filteredDoors h \<noteq> [] then Some (targetCoords h) else None)"
  proof (cases "filteredDoors h = []")
    case True
    then show ?thesis
      using assms(3,4) by (simp add: tick_active_state(2) [OF assms(1,2)])
  next
    case False
    then show ?thesis
      using targetCoords_hd [OF False] assms(3,4)
      by (simp add: tick_active_state(2) [OF assms(1,2)])
  qed
  show "snd (snd (snd (tick h st))) = None"
    using assms(3,4) by (simp add: tick_active_error [OF assms(1,2)])
qed

text \<open>
  C8: the toggle and the last-sent GOTO coordinates are variables that no statement of the
  module declares. On the module as loaded, the \<^verbatim>\<open>gotodoor\<close> command ends with a
  \<^verbatim>\<open>ReferenceError\<close> at its first statement: the toggle is not switched on and no last-sent
  state is reset. An active tick in the small dungeon, whose first filtered door stands at
  (10, 69, -4), sends its door-locations text and then ends with the same error at the auto
  GOTO condition: no GOTO is sent for the target, before or after the command.
\<close>

theorem C8_toggle_throws_on_loaded_module:
  "gotodoor initial_state = Inl (ReferenceError ''isAutoGotoEnabled'') \<and>
   run [Command_gotodoor] = (initial_state, []) \<and>
   targetCoords dungeon_host = \<lparr>goto_x = Some 10, goto_y = Some 69, goto_z = Some (-4)\<rparr> \<and>
   fst (snd (tick dungeon_host (fst (run [Command_gotodoor])))) = [DoorLocations (filteredDoors dungeon_host)] \<and>
   snd (snd (snd (tick dungeon_host (fst (run [Command_gotodoor]))))) = Some (ReferenceError ''isAutoGotoEnabled'') \<and>
   filter is_action (snd (run [Command_gotodoor, Tick dungeon_host, Tick dungeon_host])) = []"
proof -
  note a = example_hosts_active
  have cmd: "gotodoor initial_state = Inl (ReferenceError ''isAutoGotoEnabled'')"
    by (simp add: gotodoor_def initial_state_def)
  have r0: "run [Command_gotodoor] = (initial_state, [])"
    by (simp add: run_def step_def cmd)
  have tgt: "targetCoords dungeon_host = \<lparr>goto_x = Some 10, goto_y = Some 69, goto_z = Some (-4)\<rparr>"
    by (simp add: targetCoords_def dungeon_filtered)
  have ne: "filteredDoors dungeon_host \<noteq> []"
    by (simp add: dungeon_filtered)
  have m1: "fst (snd (tick dungeon_host initial_state)) = [DoorLocations (filteredDoors dungeon_host)]"
    using ne by (simp add: tick_active_msgs [OF a(3,4)] initial_state_simps)
  have e1: "snd (snd (snd (tick dungeon_host initial_state))) = Some (ReferenceError ''isAutoGotoEnabled'')"
    by (simp add: tick_active_error [OF a(3,4)] initial_state_simps)
  have en1: "isAutoGotoEnabled (fst (tick dungeon_host initial_state)) = Undeclared"
    by (simp add: tick_active_state(3) [OF a(3,4)] initial_state_simps)
  have m2: "filter is_action (fst (snd (tick dungeon_host (fst (tick dungeon_host initial_state))))) = []"
    by (simp add: tick_active_msgs [OF a(3,4)] en1 is_action_def)
  have r2: "snd (run [Command_gotodoor, Tick dungeon_host, Tick dungeon_host]) =
      fst (snd (tick dungeon_host initial_state)) @
      fst (snd (tick dungeon_host (fst (tick dungeon_host initial_state))))"
    by (simp add: run_def step_def cmd)
  have all: "filter is_action (snd (run [Command_gotodoor, Tick dungeon_host, Tick dungeon_host])) = []"
    unfolding r2 using m1 m2 by (simp add: is_action_def)
  show ?thesis
    using cmd r0 tgt m1 e1 all by simp
qed


lemma filteredDoors_walk:
  "filteredDoors h = map (toDoorData h) (fst (snd (searchForWitherDoors h (getCurrentRoom h) 0)))"
  by (simp add: filteredDoors_def filteredDoors_all)

lemma filteredDoors_footY: "e \<in> set (filteredDoors h) \<Longrightarrow> dd_footY e = Some 69"
  using search_doors_props [of _ h "getCurrentRoom h" 0]
  by (auto simp: filteredDoors_walk toDoorData_def)

text \<open>
  C10: every door the traversal pushes has footX, footY and footZ defined, and its footY is
  69. The publisher's filter therefore keeps every pushed door: the filtered sequence is the
  pushed list mapped entry by entry. Every door-locations message a tick sends lists exactly
  the doors the tick stored, one entry per door, each with footY 69, and every GOTO message
  carries y = 69.
\<close>

theorem C10_foot_coordinates_defined:
  "(\<forall>d\<in>set (fst (snd (searchForWitherDoors h room n))).
      door_footX d \<noteq> None \<and> door_footY d = Some 69 \<and> door_footZ d \<noteq> None) \<and>
   doorsDataOf h (fst (snd (searchForWitherDoors h room n))) =
     map (toDoorData h) (fst (snd (searchForWitherDoors h room n))) \<and>
   (\<forall>ds. DoorLocations ds \<in> set (fst (snd (tick h st))) \<longrightarrow>
      ds = map (toDoorData h) (doorsToRender (fst (tick h st))) \<and>
      length ds = length (doorsToRender (fst (tick h st))) \<and>
      (\<forall>e\<in>set ds. dd_footY e = Some 69)) \<and>
   (\<forall>g. Action_GOTO g \<in> set (fst (snd (tick h st))) \<longrightarrow> goto_y g = Some 69)"
proof -
  have pushed: "\<forall>d\<in>set (fst (snd (searchForWitherDoors h room n))).
      door_footX d \<noteq> None \<and> door_footY d = Some 69 \<and> door_footZ d \<noteq> None"
    using search_doors_props [of _ h room n] by blast
  have kept: "doorsDataOf h (fst (snd (searchForWitherDoors h room n))) =
     map (toDoorData h) (fst (snd (searchForWitherDoors h room n)))"
    by (rule filteredDoors_all)
  have msgs: "(\<forall>ds. DoorLocations ds \<in> set (fst (snd (tick h st))) \<longrightarrow>
      ds = map (toDoorData h) (doorsToRender (fst (tick h st))) \<and>
      length ds = length (doorsToRender (fst (tick h st))) \<and>
      (\<forall>e\<in>set ds. dd_footY e = Some 69)) \<and>
   (\<forall>g. Action_GOTO g \<in> set (fst (snd (tick h st))) \<longrightarrow> goto_y g = Some 69)"
  proof (cases "shouldBeActive h \<and> getCurrentRoom h \<noteq> None")
    case True
    then obtain r where act: "shouldBeActive h" "getCurrentRoom h = Some r" by auto
    have stored: "map (toDoorData h) (doorsToRender (fst (tick h st))) = filteredDoors h"
      using act(2) by (simp add: tick_active_doors [OF act] filteredDoors_walk)
    have dl: "DoorLocations ds \<in> set (fst (snd (tick h st))) \<Longrightarrow> ds = filteredDoors h" for ds
      by (cases "filteredDoors h = []") (simp_all add: tick_active_msgs [OF act] split: if_splits)
    have hdy: "filteredDoors h \<noteq> [] \<Longrightarrow> dd_footY (hd (filteredDoors h)) = Some 69"
      using filteredDoors_footY [of "hd (filteredDoors h)" h] by simp
    have gt: "Action_GOTO g \<in> set (fst (snd (tick h st))) \<Longrightarrow> goto_y g = Some 69" for g
      using hdy by (cases "filteredDoors h = []") (simp_all add: tick_active_msgs [OF act] split: if_splits)
    have len: "length (filteredDoors h) = length (doorsToRender (fst (tick h st)))"
      using stored [symmetric] by simp
    have fy: "\<forall>e\<in>set (filteredDoors h). dd_footY e = Some 69"
      using filteredDoors_footY [of _ h] by blast
    have "\<forall>ds. DoorLocations ds \<in> set (fst (snd (tick h st))) \<longrightarrow>
      ds = map (toDoorData h) (doorsToRender (fst (tick h st))) \<and>
      length ds = length (doorsToRender (fst (tick h st))) \<and>
      (\<forall>e\<in>set ds. dd_footY e = Some 69)"
    proof (intro allI impI)
      fix ds
      assume "DoorLocations ds \<in> set (fst (snd (tick h st)))"
      then have "ds = filteredDoors h" by (rule dl)
      then show "ds = map (toDoorData h) (doorsToRender (fst (tick h st))) \<and>
        length ds = length (doorsToRender (fst (tick h st))) \<and>
        (\<forall>e\<in>set ds. dd_footY e = Some 69)"
        using stored len fy by simp
    qed
    then show ?thesis
      using gt by blast
  next
    case False
    then have "\<not> shouldBeActive h \<or> getCurrentRoom h = None" by simp
    then have "fst (snd (tick h st)) = []"
      by (simp add: tick_inactive_state)
    then show ?thesis by simp
  qed
  show ?thesis
    using pushed kept msgs by blast
qed

theorem C10_foot_coordinates_defined_witness:
  "gotodoor (worldUnload initial_state) = Inr armed_state \<and>
   fst (snd (tick dungeon_host armed_state)) =
     [DoorLocations (filteredDoors dungeon_host),
      Action_GOTO \<lparr>goto_x = Some 10, goto_y = Some 69, goto_z = Some (-4)\<rparr>] \<and>
   filteredDoors dungeon_host = map (toDoorData dungeon_host) (doorsToRender (fst (tick dungeon_host armed_state))) \<and>
   length (doorsToRender (fst (tick dungeon_host armed_state))) = 2 \<and>
   map dd_footY (filteredDoors dungeon_host) = [Some 69, Some 69] \<and>
   map door_footY (fst (snd (searchForWitherDoors dungeon_host (Some 0) 0))) = [Some 69, Some 69]"
proof -
  note a = example_hosts_active
  let ?st = "armed_state"
  have ms: "fst (snd (tick dungeon_host ?st)) =
     [DoorLocations (filteredDoors dungeon_host),
      Action_GOTO \<lparr>goto_x = Some 10, goto_y = Some 69, goto_z = Some (-4)\<rparr>]"
    by (simp add: tick_active_msgs [OF a(3,4)] armed_state_simps dungeon_filtered)
  note inst = C10_foot_coordinates_defined [of dungeon_host "Some 0" 0 ?st]
  have dl: "DoorLocations (filteredDoors dungeon_host) \<in> set (fst (snd (tick dungeon_host ?st)))"
    by (simp only: ms list.set insert_iff simp_thms)
  note m = inst [THEN conjunct2, THEN conjunct2, THEN conjunct1, rule_format, OF dl]
  note pushed = inst [THEN conjunct1]
  have two: "length (filteredDoors dungeon_host) = 2"
    by (simp add: dungeon_filtered)
  have len: "length (doorsToRender (fst (tick dungeon_host ?st))) = 2"
    using m two by simp
  have ys: "map dd_footY (filteredDoors dungeon_host) = [Some 69, Some 69]"
    by (simp add: dungeon_filtered)
  have ws: "map door_footY (fst (snd (searchForWitherDoors dungeon_host (Some 0) 0))) = [Some 69, Some 69]"
    by (simp add: dungeon_walk)
  show ?thesis
    using armed_state_reached ms m len ys ws by blast
qed

section \<open>Probe failures\<close>






end
